theory Spec2Isabelle
  imports Complex_Main
begin

section \<open>The climate logger's correction pipeline\<close>

text \<open>
  The notebook \<^verbatim>\<open>climatelogger/climate_logger.ipynb\<close> reads humidity, temperature and
  pressure from a Sense Hat, corrects them for the heat of the Raspberry Pi and stores the
  corrected values. This theory embeds its four physics functions and the class
  \<^verbatim>\<open>Sensor\<close>.

  Errors. Every \<^verbatim>\<open>assert\<close> of the source raises \<^verbatim>\<open>AssertionError\<close> with its own
  message; reading an attribute that was never assigned raises \<^verbatim>\<open>AttributeError\<close>;
  a float division by zero raises \<^verbatim>\<open>ZeroDivisionError\<close>. The error type below has one
  value per raise site, grouped the way the specification names them:
  \<^item> \<open>SensorOutOfRange q b\<close>: the six assertions of \<^verbatim>\<open>Sensor.update\<close>
    (quantity \<open>q\<close> below or above its bound);
  \<^item> \<open>InvalidInput q b\<close>: the three input assertions of \<^verbatim>\<open>buck_vapor_pressure\<close>;
  \<^item> \<open>InternalError\<close>: its output assertion (\<^verbatim>\<open>negative output vapor pressure\<close>);
  \<^item> \<open>NotReady a\<close>: the \<^verbatim>\<open>AttributeError\<close> for the unset attribute \<open>a\<close>;
  \<^item> \<open>ZeroDivisionError\<close>.
\<close>

datatype quantity = Humidity | Temperature | Pressure

datatype bound = Below | Above

datatype attribute =
    Measured_humidity | Measured_temperature | Measured_pressure
  | Timestamp | Ambient_temperature | Ambient_pressure | Ambient_humidity

datatype error =
    SensorOutOfRange quantity bound
  | InvalidInput quantity bound
  | InternalError
  | NotReady attribute
  | ZeroDivisionError

section \<open>Float arithmetic\<close>

text \<open>
  Python's \<^verbatim>\<open>float\<close> is an IEEE 754 double. A finite double is modelled by the real
  number it denotes, and every literal and every arithmetic operation of the source is
  written as the exact real operation followed by a rounding \<open>rnd ar\<close>. The parameter
  \<open>ar\<close> selects how the embedding reads the arithmetic:
  \<^item> \<open>Exact\<close>: no rounding; the functions compute the formulas over the reals.
  \<^item> \<open>Binary64\<close>: the result of every operation is rounded to the nearest double,
    ties to the even significand (\<open>round_double\<close>), as the machine does.

  A double has 53 significant bits: for \<open>2 powi e \<le> \<bar>x\<bar>\<close> and \<open>\<bar>x\<bar> < 2 powi (e + 1)\<close>
  neighbouring doubles are \<open>2 powi (e - 52)\<close> apart (\<open>ulp\<close>), and below
  \<open>2 powi (- 1022)\<close> (the subnormal numbers) they are \<open>2 powi (- 1074)\<close> apart.

  Not modelled: overflow to infinity (a result of magnitude \<open>2 ^ 1024\<close> or more is
  rounded to 53 bits and kept), NaN, and the sign of zero; where a property needs it, a
  bound on the inputs keeps the computation in the range of the finite doubles.
  \<^verbatim>\<open>math.exp\<close> is the exponential of the C library; under \<open>Binary64\<close> it is modelled
  as the correctly rounded exponential. The counterexamples below use it only at \<open>0\<close>,
  where the C library returns exactly \<open>1\<close>. The arguments of the functions range over
  all reals; the doubles are among them.
\<close>

definition round_half_even :: "real \<Rightarrow> int" where
  "round_half_even x =
    (let n = \<lfloor>x\<rfloor>; r = x - of_int n in
     if r < 1 / 2 then n else if 1 / 2 < r then n + 1 else if even n then n else n + 1)"

definition binade :: "real \<Rightarrow> int" where
  "binade x = max (- 1022) \<lfloor>log 2 \<bar>x\<bar>\<rfloor>"

definition ulp :: "real \<Rightarrow> real" where
  "ulp x = 2 powi (binade x - 52)"

definition round_double :: "real \<Rightarrow> real" where
  "round_double x = (if x = 0 then 0 else of_int (round_half_even (x / ulp x)) * ulp x)"

datatype arithmetic = Exact | Binary64

definition rnd :: "arithmetic \<Rightarrow> real \<Rightarrow> real" where
  "rnd ar x = (case ar of Exact \<Rightarrow> x | Binary64 \<Rightarrow> round_double x)"

definition float_div :: "arithmetic \<Rightarrow> real \<Rightarrow> real \<Rightarrow> error + real" where
  "float_div ar a b = (if b = 0 then Inl ZeroDivisionError else Inr (rnd ar (a / b)))"

section \<open>The physics functions\<close>

subsection \<open>Saturation vapor pressure\<close>

text \<open>
  \<^verbatim>\<open>
  def buck_vapor_pressure(air_pressure, temperature):
      buck_constants = [1.0007, 3.46e-6, 6.1121, 17.502, 240.97]
      assert air_pressure > 0, "buck_vapor_pressure: negative input air pressure"
      assert temperature >= -20, "buck_vapor_pressure: temperature below validity range"
      assert temperature <= 50, "buck_vapor_pressure: temperature above validity range"
      enhancement_factor = buck_constants[0] + buck_constants[1]*air_pressure
      temperature_exponent = buck_constants[3]*temperature/(buck_constants[4]+temperature)
      vapor_pressure = enhancement_factor*buck_constants[2]*math.exp(temperature_exponent)
      assert vapor_pressure > 0, "buck_vapor_pressure: negative output vapor pressure"
      return (vapor_pressure)
  \<close>
\<close>

definition buck_constants :: "arithmetic \<Rightarrow> real list" where
  "buck_constants ar = map (rnd ar) [1.0007, 0.00000346, 6.1121, 17.502, 240.97]"

definition buck_vapor_pressure :: "arithmetic \<Rightarrow> real \<Rightarrow> real \<Rightarrow> error + real" where
  "buck_vapor_pressure ar air_pressure temperature =
    (if \<not> air_pressure > 0 then Inl (InvalidInput Pressure Below)
     else if \<not> temperature \<ge> - 20 then Inl (InvalidInput Temperature Below)
     else if \<not> temperature \<le> 50 then Inl (InvalidInput Temperature Above)
     else
       let enhancement_factor =
             rnd ar (buck_constants ar ! 0 + rnd ar (buck_constants ar ! 1 * air_pressure)) in
       case float_div ar (rnd ar (buck_constants ar ! 3 * temperature))
                         (rnd ar (buck_constants ar ! 4 + temperature)) of
         Inl e \<Rightarrow> Inl e
       | Inr temperature_exponent \<Rightarrow>
           let vapor_pressure =
                 rnd ar (rnd ar (enhancement_factor * buck_constants ar ! 2)
                         * rnd ar (exp temperature_exponent)) in
           if \<not> vapor_pressure > 0 then Inl InternalError
           else Inr vapor_pressure)"

subsection \<open>The three corrections\<close>

text \<open>
  \<^verbatim>\<open>
  def ambient_temperature(measured_temperature):
      a_fit = 0.8542
      b_fit = -9.675
      ambient_temperature = a_fit*measured_temperature + b_fit
      return (ambient_temperature)

  def ambient_pressure(measured_pressure):
      return (measured_pressure)

  def ambient_humidity(measured_humidity, measured_temperature, measured_pressure,
                       ambient_temperature, ambient_pressure):
      inside_vapor_pressure = buck_vapor_pressure(measured_pressure, measured_temperature)
      ambient_vapor_pressure = buck_vapor_pressure(ambient_pressure, ambient_temperature)
      ambient_humidity = measured_humidity*inside_vapor_pressure/ambient_vapor_pressure
      return (ambient_humidity)
  \<close>
  The last two parameters of \<^verbatim>\<open>ambient_humidity\<close> hide the functions of the same
  names in the source; here they are primed. \<^verbatim>\<open>ambient_pressure\<close> does no arithmetic
  and needs no parameter \<open>ar\<close>.
\<close>

definition ambient_temperature :: "arithmetic \<Rightarrow> real \<Rightarrow> real" where
  "ambient_temperature ar measured_temperature =
    (let a_fit = rnd ar 0.8542; b_fit = - rnd ar 9.675 in
     rnd ar (rnd ar (a_fit * measured_temperature) + b_fit))"

definition ambient_pressure :: "real \<Rightarrow> real" where
  "ambient_pressure measured_pressure = measured_pressure"

definition ambient_humidity ::
  "arithmetic \<Rightarrow> real \<Rightarrow> real \<Rightarrow> real \<Rightarrow> real \<Rightarrow> real \<Rightarrow> error + real" where
  "ambient_humidity ar measured_humidity measured_temperature measured_pressure
       ambient_temperature' ambient_pressure' =
    (case buck_vapor_pressure ar measured_pressure measured_temperature of
       Inl e \<Rightarrow> Inl e
     | Inr inside_vapor_pressure \<Rightarrow>
        (case buck_vapor_pressure ar ambient_pressure' ambient_temperature' of
           Inl e \<Rightarrow> Inl e
         | Inr ambient_vapor_pressure \<Rightarrow>
             float_div ar (rnd ar (measured_humidity * inside_vapor_pressure))
                          ambient_vapor_pressure))"

section \<open>The class Sensor\<close>

text \<open>
  \<^verbatim>\<open>
  class Sensor:
      def __init__(self):
          self.sense = SenseHat()
          self.sense.clear()
          self.timestamp_fmt = "%Y-%m-%d %H:%M:%S"
          self.measurement_interval = 30.
          test = self.sense.get_humidity()
          test = self.sense.get_temperature_from_humidity()
          test = self.sense.get_pressure()
          self.sense.show_message("Starting up...")

      def compute_ambient_values(self):
          self.ambient_temperature = ambient_temperature(self.measured_temperature)
          self.ambient_pressure = ambient_pressure(self.measured_pressure)
          self.ambient_humidity = ambient_humidity(self.measured_humidity, self.measured_temperature,
                                                   self.measured_pressure, self.ambient_temperature,
                                                   self.ambient_pressure)

      def update(self):
          self.measured_humidity = self.sense.get_humidity()
          assert self.measured_humidity >= 0., "Sensor.update: humidity < 0% received from sensor."
          assert self.measured_humidity <= 100., "Sensor.update: humidity > 100% received from sensor."
          self.measured_temperature = self.sense.get_temperature_from_humidity()
          assert self.measured_temperature >= 0., "... temperature < 0 C received from sensor."
          assert self.measured_temperature <= 65., "... temperature > 65 C received from sensor."
          self.measured_pressure = self.sense.get_pressure()
          assert self.measured_pressure >= 260., "... pressure < 260 hPa received from sensor."
          assert self.measured_pressure <= 1260., "... pressure > 1260 hPa received from sensor."
          self.timestamp = datetime.utcnow().strftime(self.timestamp_fmt)
          self.compute_ambient_values()
  \<close>

  The object is a record. An attribute that \<^verbatim>\<open>__init__\<close> does not assign is \<open>None\<close>
  until a method assigns it; the three attributes that share their names with the
  correction functions carry the prefix \<open>self_\<close>. What the driver answers in one cycle is
  the record \<open>SenseHat\<close>, and the formatted UTC time of the cycle is a string handed to
  \<open>update\<close>. A method returns the outcome (\<open>Done\<close>, or the exception it raised) together
  with the object as the method left it: an assignment made before an exception stays.
  \<open>compute_ambient_values\<close> and \<open>update\<close> call the physics functions and take the
  arithmetic \<open>ar\<close> for them.
\<close>

record SenseHat =
  get_humidity :: real
  get_temperature_from_humidity :: real
  get_pressure :: real

record Sensor =
  timestamp_fmt :: string
  measurement_interval :: real
  measured_humidity :: "real option"
  measured_temperature :: "real option"
  measured_pressure :: "real option"
  timestamp :: "string option"
  self_ambient_temperature :: "real option"
  self_ambient_pressure :: "real option"
  self_ambient_humidity :: "real option"

datatype outcome = Done | Raised error

definition init :: Sensor where
  "init = \<lparr> timestamp_fmt = ''%Y-%m-%d %H:%M:%S'', measurement_interval = 30,
      measured_humidity = None, measured_temperature = None, measured_pressure = None,
      timestamp = None, self_ambient_temperature = None, self_ambient_pressure = None,
      self_ambient_humidity = None \<rparr>"

definition getattr :: "attribute \<Rightarrow> 'a option \<Rightarrow> error + 'a" where
  "getattr a v = (case v of None \<Rightarrow> Inl (NotReady a) | Some x \<Rightarrow> Inr x)"

definition compute_ambient_values :: "arithmetic \<Rightarrow> Sensor \<Rightarrow> outcome \<times> Sensor" where
  "compute_ambient_values ar s =
    (case getattr Measured_temperature (measured_temperature s) of
       Inl e \<Rightarrow> (Raised e, s)
     | Inr mt \<Rightarrow>
        let s1 = s\<lparr>self_ambient_temperature := Some (ambient_temperature ar mt)\<rparr> in
        (case getattr Measured_pressure (measured_pressure s1) of
           Inl e \<Rightarrow> (Raised e, s1)
         | Inr mp \<Rightarrow>
            let s2 = s1\<lparr>self_ambient_pressure := Some (ambient_pressure mp)\<rparr> in
            (case getattr Measured_humidity (measured_humidity s2) of
               Inl e \<Rightarrow> (Raised e, s2)
             | Inr h \<Rightarrow>
                (case getattr Ambient_temperature (self_ambient_temperature s2) of
                   Inl e \<Rightarrow> (Raised e, s2)
                 | Inr ta \<Rightarrow>
                    (case getattr Ambient_pressure (self_ambient_pressure s2) of
                       Inl e \<Rightarrow> (Raised e, s2)
                     | Inr pa \<Rightarrow>
                        (case ambient_humidity ar h mt mp ta pa of
                           Inl e \<Rightarrow> (Raised e, s2)
                         | Inr v \<Rightarrow> (Done, s2\<lparr>self_ambient_humidity := Some v\<rparr>)))))))"

definition update ::
  "arithmetic \<Rightarrow> SenseHat \<Rightarrow> string \<Rightarrow> Sensor \<Rightarrow> outcome \<times> Sensor" where
  "update ar sense utcnow s =
    (let s1 = s\<lparr>measured_humidity := Some (get_humidity sense)\<rparr> in
     if \<not> get_humidity sense \<ge> 0 then (Raised (SensorOutOfRange Humidity Below), s1)
     else if \<not> get_humidity sense \<le> 100 then (Raised (SensorOutOfRange Humidity Above), s1)
     else
       let s2 = s1\<lparr>measured_temperature := Some (get_temperature_from_humidity sense)\<rparr> in
       if \<not> get_temperature_from_humidity sense \<ge> 0
         then (Raised (SensorOutOfRange Temperature Below), s2)
       else if \<not> get_temperature_from_humidity sense \<le> 65
         then (Raised (SensorOutOfRange Temperature Above), s2)
       else
         let s3 = s2\<lparr>measured_pressure := Some (get_pressure sense)\<rparr> in
         if \<not> get_pressure sense \<ge> 260 then (Raised (SensorOutOfRange Pressure Below), s3)
         else if \<not> get_pressure sense \<le> 1260 then (Raised (SensorOutOfRange Pressure Above), s3)
         else compute_ambient_values ar (s3\<lparr>timestamp := Some utcnow\<rparr>))"

text \<open>
  Reading the corrected record, as the main loop does
  (\<^verbatim>\<open>ClimateMeas.timestamp\<close>, \<^verbatim>\<open>ClimateMeas.ambient_humidity\<close>,
  \<^verbatim>\<open>ClimateMeas.ambient_temperature\<close>, \<^verbatim>\<open>ClimateMeas.ambient_pressure\<close>).
\<close>

definition get_timestamp :: "Sensor \<Rightarrow> error + string" where
  "get_timestamp s = getattr Timestamp (timestamp s)"

definition get_ambient_humidity :: "Sensor \<Rightarrow> error + real" where
  "get_ambient_humidity s = getattr Ambient_humidity (self_ambient_humidity s)"

definition get_ambient_temperature :: "Sensor \<Rightarrow> error + real" where
  "get_ambient_temperature s = getattr Ambient_temperature (self_ambient_temperature s)"

definition get_ambient_pressure :: "Sensor \<Rightarrow> error + real" where
  "get_ambient_pressure s = getattr Ambient_pressure (self_ambient_pressure s)"

text \<open>
  The objects on which no \<open>update\<close> has succeeded yet: the fresh object, and every
  object left behind by an \<open>update\<close> that raised on such an object.
\<close>

inductive never_updated :: "arithmetic \<Rightarrow> Sensor \<Rightarrow> bool" for ar where
  fresh: "never_updated ar init"
| failed: "never_updated ar s \<Longrightarrow> update ar sense utcnow s = (Raised e, s')
    \<Longrightarrow> never_updated ar s'"

section \<open>Vocabulary of the properties\<close>

text \<open>
  \<open>reading h t p\<close>: the answers of the driver in one cycle.
  \<open>in_sensor_range\<close>: the three readings pass the six assertions of \<open>update\<close>.
  \<open>corrected_record\<close>: the four attributes the main loop writes to the database.
  \<open>measured\<close>: the object after the assignments \<open>update\<close> makes before the call of
  \<^verbatim>\<open>ambient_humidity\<close>.
  \<open>fadd\<close>, \<open>fmul\<close>, \<open>fexp\<close>: sum, product and exponential rounded to a double, to
  write the intermediate values of the \<open>Binary64\<close> computation.
\<close>

abbreviation reading :: "real \<Rightarrow> real \<Rightarrow> real \<Rightarrow> SenseHat" where
  "reading h t p \<equiv>
     \<lparr>get_humidity = h, get_temperature_from_humidity = t, get_pressure = p\<rparr>"

abbreviation fadd :: "real \<Rightarrow> real \<Rightarrow> real" where
  "fadd a b \<equiv> round_double (a + b)"

abbreviation fmul :: "real \<Rightarrow> real \<Rightarrow> real" where
  "fmul a b \<equiv> round_double (a * b)"

abbreviation fexp :: "real \<Rightarrow> real" where
  "fexp x \<equiv> round_double (exp x)"

definition in_sensor_range :: "SenseHat \<Rightarrow> bool" where
  "in_sensor_range sense \<longleftrightarrow>
     0 \<le> get_humidity sense \<and> get_humidity sense \<le> 100 \<and>
     0 \<le> get_temperature_from_humidity sense \<and> get_temperature_from_humidity sense \<le> 65 \<and>
     260 \<le> get_pressure sense \<and> get_pressure sense \<le> 1260"

definition corrected_record ::
  "Sensor \<Rightarrow> string option \<times> real option \<times> real option \<times> real option" where
  "corrected_record s =
     (timestamp s, self_ambient_humidity s, self_ambient_temperature s, self_ambient_pressure s)"

definition measured :: "arithmetic \<Rightarrow> SenseHat \<Rightarrow> string \<Rightarrow> Sensor \<Rightarrow> Sensor" where
  "measured ar sense utcnow s =
     s\<lparr>measured_humidity := Some (get_humidity sense),
       measured_temperature := Some (get_temperature_from_humidity sense),
       measured_pressure := Some (get_pressure sense),
       timestamp := Some utcnow,
       self_ambient_temperature :=
         Some (ambient_temperature ar (get_temperature_from_humidity sense)),
       self_ambient_pressure := Some (ambient_pressure (get_pressure sense))\<rparr>"

section \<open>Exact arithmetic: auxiliary facts\<close>

lemma rnd_Exact [simp]: "rnd Exact x = x"
  by (simp add: rnd_def)

lemma rnd_Binary64 [simp]: "rnd Binary64 x = round_double x"
  by (simp add: rnd_def)

lemma buck_constants_nth:
  "buck_constants Exact ! 0 = 1.0007" "buck_constants Exact ! 1 = 0.00000346"
  "buck_constants Exact ! 2 = 6.1121" "buck_constants Exact ! 3 = 17.502"
  "buck_constants Exact ! 4 = 240.97"
  by (simp_all add: buck_constants_def)

lemma float_div_nonzero: "b \<noteq> 0 \<Longrightarrow> float_div ar a b = Inr (rnd ar (a / b))"
  by (simp add: float_div_def)

lemma buck_value_positive:
  assumes "0 < p"
  shows "0 < (1.0007 + 0.00000346 * p) * 6.1121 * exp (x::real)"
proof -
  have "0 < 1.0007 + 0.00000346 * p" using assms by (simp add: add_pos_pos)
  then show ?thesis by simp
qed

lemma buck_vapor_pressure_valid:
  assumes "0 < p" "- 20 \<le> t" "t \<le> 50"
  shows "buck_vapor_pressure Exact p t =
    Inr ((1.0007 + 0.00000346 * p) * 6.1121 * exp (17.502 * t / (240.97 + t)))"
proof -
  have nz: "240.97 + t \<noteq> 0" using assms by simp
  have pos: "0 < (1.0007 + 0.00000346 * p) * 6.1121 * exp (17.502 * t / (240.97 + t))"
    using assms(1) by (rule buck_value_positive)
  have quot: "float_div Exact (17.502 * t) (240.97 + t) = Inr (17.502 * t / (240.97 + t))"
    using nz by (simp add: float_div_def)
  show ?thesis
    unfolding buck_vapor_pressure_def buck_constants_nth Let_def rnd_Exact quot
    using assms pos by (simp only: simp_thms if_True if_False sum.case)
qed

lemma exponent_strict_mono:
  assumes "- 20 \<le> t1" "t1 < t2"
  shows "17.502 * t1 / (240.97 + t1) < 17.502 * t2 / (240.97 + (t2::real))"
proof -
  have d1: "0 < 240.97 + t1" and d2: "0 < 240.97 + t2" using assms by simp_all
  show ?thesis using assms d1 d2 by (simp add: field_simps)
qed

lemma buck_value_strict_mono:
  assumes "0 < p" "- 20 \<le> t1" "t1 < t2"
  shows "(1.0007 + 0.00000346 * p) * 6.1121 * exp (17.502 * t1 / (240.97 + t1))
       < (1.0007 + 0.00000346 * p) * 6.1121 * exp (17.502 * t2 / (240.97 + (t2::real)))"
proof -
  have "0 < (1.0007 + 0.00000346 * p) * 6.1121" using assms(1) by (simp add: add_pos_pos)
  moreover have "exp (17.502 * t1 / (240.97 + t1)) < exp (17.502 * t2 / (240.97 + t2))"
    using exponent_strict_mono [OF assms(2,3)] by simp
  ultimately show ?thesis by (rule mult_strict_left_mono [rotated])
qed

lemma ambient_humidity_valid:
  assumes "0 < pm" "- 20 \<le> tm" "tm \<le> 50" "0 < pa" "- 20 \<le> ta" "ta \<le> 50"
  shows "ambient_humidity Exact h tm pm ta pa =
    Inr (h * ((1.0007 + 0.00000346 * pm) * 6.1121 * exp (17.502 * tm / (240.97 + tm)))
         / ((1.0007 + 0.00000346 * pa) * 6.1121 * exp (17.502 * ta / (240.97 + ta))))"
proof -
  have "(1.0007 + 0.00000346 * pa) * 6.1121 * exp (17.502 * ta / (240.97 + ta)) \<noteq> 0"
    using buck_value_positive [OF assms(4)] by (simp only: less_imp_neq [THEN not_sym] not_False_eq_True)
  then show ?thesis
    unfolding ambient_humidity_def
      buck_vapor_pressure_valid [OF assms(1,2,3)] buck_vapor_pressure_valid [OF assms(4,5,6)]
    by (simp only: sum.case float_div_nonzero simp_thms rnd_Exact)
qed

lemma ambient_temperature_range:
  assumes "0 \<le> t" "t \<le> 50"
  shows "- 20 \<le> ambient_temperature Exact t" "ambient_temperature Exact t \<le> 50"
  using assms by (simp_all add: ambient_temperature_def)

section \<open>Double precision: auxiliary facts\<close>

subsection \<open>Rounding in a known binade\<close>

lemma log2_powi: "log 2 (2 powi k) = of_int k"
proof -
  have "2 powr (of_int k) = (2::real) powi k"
    by (rule powr_real_of_int'; simp)
  then have "(2::real) powi k = 2 powr (of_int k)" by (rule sym)
  then show ?thesis by simp
qed

lemma binade_normal:
  assumes "- 1022 \<le> e" "2 powi e \<le> \<bar>x\<bar>" "\<bar>x\<bar> < 2 powi (e + 1)"
  shows "binade x = e"
proof -
  have pos: "0 < \<bar>x\<bar>" using assms(2) by (smt (verit) zero_less_power_int)
  have "2 powr (of_int e) = (2::real) powi e" "2 powr (of_int (e + 1)) = (2::real) powi (e + 1)"
    by (rule powr_real_of_int'; simp)+
  then have "2 powr (of_int e) \<le> \<bar>x\<bar> \<and> \<bar>x\<bar> < 2 powr (of_int (e + 1))"
    using assms(2,3) by simp
  then have "\<lfloor>log 2 \<bar>x\<bar>\<rfloor> = e"
    using pos by (subst floor_log_eq_powr_iff) simp_all
  then show ?thesis using assms(1) by (simp add: binade_def)
qed

lemma binade_subnormal:
  assumes "x \<noteq> 0" "\<bar>x\<bar> < 2 powi (- 1022)"
  shows "binade x = - 1022"
proof -
  have pos: "0 < \<bar>x\<bar>" using assms(1) by simp
  have "log 2 \<bar>x\<bar> < log 2 (2 powi (- 1022))"
    using assms(2) pos by (simp only: log_less_cancel_iff) 
  also have "\<dots> = - 1022" by (simp only: log2_powi)
  finally have "\<lfloor>log 2 \<bar>x\<bar>\<rfloor> \<le> - 1022" by linarith
  then show ?thesis by (simp add: binade_def)
qed

lemma round_double_normal:
  assumes "- 1022 \<le> e" "2 powi e \<le> \<bar>x\<bar>" "\<bar>x\<bar> < 2 powi (e + 1)"
  shows "round_double x = of_int (round_half_even (x / 2 powi (e - 52))) * 2 powi (e - 52)"
proof -
  have "x \<noteq> 0" using assms(2) by (smt (verit) zero_less_power_int)
  then show ?thesis by (simp add: round_double_def ulp_def binade_normal [OF assms])
qed

lemma round_double_subnormal:
  assumes "\<bar>x\<bar> < 2 powi (- 1022)"
  shows "round_double x = of_int (round_half_even (x / 2 powi (- 1074))) * 2 powi (- 1074)"
proof (cases "x = 0")
  case True
  then show ?thesis by (simp add: round_double_def round_half_even_def)
next
  case False
  then show ?thesis
    using binade_subnormal [OF False assms] by (simp add: round_double_def ulp_def)
qed

subsection \<open>Bounds that rounding preserves\<close>

lemma round_half_even_ge:
  assumes "of_int n \<le> x"
  shows "n \<le> round_half_even x"
proof -
  have "n \<le> \<lfloor>x\<rfloor>" using assms by (simp add: le_floor_iff)
  then show ?thesis by (simp add: round_half_even_def Let_def)
qed

lemma round_half_even_le:
  assumes "x \<le> of_int n"
  shows "round_half_even x \<le> n"
proof -
  have f: "\<lfloor>x\<rfloor> \<le> n" using assms by (simp add: floor_le_iff)
  show ?thesis
  proof (cases "x - of_int \<lfloor>x\<rfloor> < 1 / 2")
    case True
    then show ?thesis using f by (simp add: round_half_even_def Let_def)
  next
    case False
    then have "of_int \<lfloor>x\<rfloor> < x" by linarith
    then have "of_int \<lfloor>x\<rfloor> < (of_int n :: real)" using assms by linarith
    then have "\<lfloor>x\<rfloor> < n" by simp
    then show ?thesis by (simp add: round_half_even_def Let_def)
  qed
qed

lemma ulp_pos: "0 < ulp x"
  by (simp add: ulp_def)

lemma ulp_scale: "2 ^ 52 * ulp x = 2 powi (binade x)"
  using power_int_add [of "2::real" 52 "binade x - 52"] by (simp add: ulp_def)

lemma binade_of_ge:
  assumes "- 1022 \<le> e" "2 powi e \<le> x"
  shows "e \<le> binade x" "2 powi (binade x) \<le> x"
proof -
  have pos: "0 < x" using assms(2) by (smt (verit) zero_less_power_int)
  have "of_int e = log 2 (2 powi e)" by (simp add: log2_powi)
  also have "\<dots> \<le> log 2 x"
    by (subst log_le_cancel_iff) (use assms(2) pos in simp_all)
  finally have fl: "e \<le> \<lfloor>log 2 x\<rfloor>" by (simp add: le_floor_iff)
  then have b: "binade x = \<lfloor>log 2 x\<rfloor>" using assms(1) pos by (simp add: binade_def)
  show "e \<le> binade x" using fl b by simp
  have "2 powr (of_int \<lfloor>log 2 x\<rfloor>) \<le> 2 powr (log 2 x)"
    by (subst powr_le_cancel_iff) simp_all
  also have "\<dots> = x" using pos by simp
  finally have "2 powr (of_int \<lfloor>log 2 x\<rfloor>) \<le> x" .
  moreover have "2 powr (of_int \<lfloor>log 2 x\<rfloor>) = (2::real) powi \<lfloor>log 2 x\<rfloor>"
    by (rule powr_real_of_int'; simp)
  ultimately show "2 powi (binade x) \<le> x" using b by simp
qed

lemma round_double_ge:
  assumes "- 1022 \<le> e" "2 powi e \<le> x"
  shows "2 powi e \<le> round_double x"
proof -
  have pos: "0 < x" using assms(2) by (smt (verit) zero_less_power_int)
  note b = binade_of_ge [OF assms]
  have "of_int (2 ^ 52) * ulp x \<le> x" using b(2) ulp_scale [of x] by simp
  then have "of_int (2 ^ 52) \<le> x / ulp x" using ulp_pos [of x] by (simp add: pos_le_divide_eq)
  then have "2 ^ 52 \<le> round_half_even (x / ulp x)" by (rule round_half_even_ge)
  then have "(2::real) ^ 52 \<le> of_int (round_half_even (x / ulp x))"
    by (metis of_int_le_iff of_int_numeral of_int_power)
  then have "2 ^ 52 * ulp x \<le> of_int (round_half_even (x / ulp x)) * ulp x"
    using ulp_pos [of x] by (simp only: mult_le_cancel_right_pos)
  then have "2 powi (binade x) \<le> round_double x"
    using pos by (simp only: ulp_scale) (simp add: round_double_def)
  moreover have "(2::real) powi e \<le> 2 powi (binade x)"
    using b(1) by (simp add: power_int_increasing)
  ultimately show ?thesis by (rule order_trans [rotated])
qed

lemma round_double_nonneg:
  assumes "0 \<le> x"
  shows "0 \<le> round_double x"
proof -
  have "of_int 0 \<le> x / ulp x" using assms ulp_pos [of x] by simp
  then have "0 \<le> round_half_even (x / ulp x)" by (rule round_half_even_ge)
  then show ?thesis using ulp_pos [of x] by (simp add: round_double_def)
qed

lemma binade_of_le:
  assumes "- 1022 \<le> e" "x \<noteq> 0" "\<bar>x\<bar> \<le> 2 powi e"
  shows "binade x \<le> e"
proof -
  have pos: "0 < \<bar>x\<bar>" using assms(2) by simp
  have "log 2 \<bar>x\<bar> \<le> log 2 (2 powi e)"
    by (subst log_le_cancel_iff) (use assms(3) pos in simp_all)
  also have "\<dots> = of_int e" by (simp add: log2_powi)
  finally have "\<lfloor>log 2 \<bar>x\<bar>\<rfloor> \<le> e" by (simp add: floor_le_iff) 
  then show ?thesis using assms(1) by (simp add: binade_def)
qed

lemma round_double_abs_le:
  assumes "- 1022 \<le> e" "\<bar>x\<bar> \<le> 2 powi e"
  shows "\<bar>round_double x\<bar> \<le> 2 powi e"
proof (cases "x = 0")
  case True
  then show ?thesis by (simp add: round_double_def)
next
  case False
  define k where "k = nat (e - binade x + 52)"
  have be: "binade x \<le> e" using assms(1) False assms(2) by (rule binade_of_le)
  then have k: "int k = e - binade x + 52" by (simp add: k_def)
  have e: "e = int k + (binade x - 52)" using k by simp
  have "(2::real) powi e = 2 powi (int k) * 2 powi (binade x - 52)"
    unfolding e by (rule power_int_add) simp
  then have sc: "2 ^ k * ulp x = 2 powi e" by (simp add: ulp_def)
  then have "\<bar>x\<bar> \<le> 2 ^ k * ulp x" using assms(2) by simp
  then have "x \<le> 2 ^ k * ulp x" "- (2 ^ k) * ulp x \<le> x" by linarith+
  then have "x / ulp x \<le> 2 ^ k" "- (2 ^ k) \<le> x / ulp x"
    using ulp_pos [of x] by (simp_all add: pos_divide_le_eq pos_le_divide_eq)
  then have up: "x / ulp x \<le> of_int (2 ^ k)" and lo: "of_int (- (2 ^ k)) \<le> x / ulp x"
    by simp_all
  have "round_half_even (x / ulp x) \<le> 2 ^ k" using up by (rule round_half_even_le)
  moreover have "- (2 ^ k) \<le> round_half_even (x / ulp x)" using lo by (rule round_half_even_ge)
  ultimately have "round_half_even (x / ulp x) \<le> 2 ^ k" "- (2 ^ k) \<le> round_half_even (x / ulp x)" .
  then have "\<bar>round_half_even (x / ulp x)\<bar> \<le> 2 ^ k" by simp
  then have "\<bar>real_of_int (round_half_even (x / ulp x))\<bar> \<le> 2 ^ k"
    by (metis of_int_abs of_int_le_iff of_int_numeral of_int_power)
  then have "\<bar>real_of_int (round_half_even (x / ulp x))\<bar> * ulp x \<le> 2 ^ k * ulp x"
    using ulp_pos [of x] by (simp only: mult_le_cancel_right_pos)
  then show ?thesis using False ulp_pos [of x] by (simp add: round_double_def abs_mult sc)
qed

subsection \<open>The rounding error\<close>

lemma round_half_even_error: "\<bar>of_int (round_half_even z) - z\<bar> \<le> 1 / 2"
proof -
  have "of_int \<lfloor>z\<rfloor> \<le> z" "z < of_int \<lfloor>z\<rfloor> + 1" by linarith+
  then show ?thesis by (auto simp: round_half_even_def Let_def abs_le_iff)
qed

lemma binade_abs: "binade \<bar>x\<bar> = binade x"
  by (simp add: binade_def)

lemma round_double_error:
  assumes "2 powi (- 1022) \<le> \<bar>y\<bar>"
  shows "\<bar>round_double y - y\<bar> \<le> 2 powi (- 53) * \<bar>y\<bar>"
proof -
  have nz: "y \<noteq> 0" using assms by (smt (verit) zero_less_power_int abs_zero)
  have b: "2 powi (binade y) \<le> \<bar>y\<bar>"
    using binade_of_ge(2) [of "- 1022" "\<bar>y\<bar>"] assms by (simp add: binade_abs)
  have "round_double y - y = (of_int (round_half_even (y / ulp y)) - y / ulp y) * ulp y"
    using nz ulp_pos [of y] by (simp add: round_double_def field_simps)
  then have "\<bar>round_double y - y\<bar> = \<bar>of_int (round_half_even (y / ulp y)) - y / ulp y\<bar> * ulp y"
    using ulp_pos [of y] by (simp add: abs_mult)
  also have "\<dots> \<le> 1 / 2 * ulp y"
    using round_half_even_error [of "y / ulp y"] ulp_pos [of y]
    by (intro mult_right_mono) simp_all
  also have "\<dots> = 2 powi (- 53) * (2 ^ 52 * ulp y)" by simp
  also have "\<dots> = 2 powi (- 53) * 2 powi (binade y)" by (simp only: ulp_scale)
  also have "\<dots> \<le> 2 powi (- 53) * \<bar>y\<bar>" using b by (intro mult_left_mono) simp_all
  finally show ?thesis .
qed

lemma round_double_abs_error:
  "\<bar>round_double y - y\<bar> \<le> 2 powi (- 53) * \<bar>y\<bar> + 2 powi (- 1075)"
proof (cases "2 powi (- 1022) \<le> \<bar>y\<bar>")
  case True
  have "(0::real) \<le> 2 powi (- 1075)" by simp
  then show ?thesis using round_double_error [OF True] by linarith
next
  case False
  show ?thesis
  proof (cases "y = 0")
    case True
    then show ?thesis by (simp add: round_double_def)
  next
    case nz: False
    have b: "binade y = - 1022" using nz False by (intro binade_subnormal) simp_all
    have u: "ulp y = 2 powi (- 1074)" by (simp add: ulp_def b)
    have "round_double y - y = (of_int (round_half_even (y / ulp y)) - y / ulp y) * ulp y"
      using nz ulp_pos [of y] by (simp add: round_double_def field_simps)
    then have "\<bar>round_double y - y\<bar> = \<bar>of_int (round_half_even (y / ulp y)) - y / ulp y\<bar> * ulp y"
      using ulp_pos [of y] by (simp add: abs_mult)
    also have "\<dots> \<le> 1 / 2 * ulp y"
      using round_half_even_error [of "y / ulp y"] ulp_pos [of y]
      by (intro mult_right_mono) simp_all
    also have "\<dots> = 2 powi (- 1075)" unfolding u by (simp add: power_int_minus field_simps)
    finally have "\<bar>round_double y - y\<bar> \<le> 2 powi (- 1075)" .
    moreover have "0 \<le> 2 powi (- 53) * \<bar>y\<bar>" by simp
    ultimately show ?thesis by linarith
  qed
qed

lemma tiny: "(2::real) powi (- 1075) \<le> 2 powi (- 60)"
  by (rule power_int_increasing) simp_all

lemma round_double_rel:
  assumes "2 powi (- 1022) \<le> y"
  shows "(1 - 2 powi (- 53)) * y \<le> round_double y" "round_double y \<le> (1 + 2 powi (- 53)) * y"
proof -
  define u where "u = (2::real) powi (- 53)"
  have pos: "0 < y" using assms by (smt (verit) zero_less_power_int)
  then have "2 powi (- 1022) \<le> \<bar>y\<bar>" using assms by simp
  then have "\<bar>round_double y - y\<bar> \<le> u * \<bar>y\<bar>" unfolding u_def by (rule round_double_error)
  then have "\<bar>round_double y - y\<bar> \<le> u * y" using pos by simp
  then have "y - u * y \<le> round_double y" "round_double y \<le> y + u * y" by linarith+
  then have "(1 - u) * y \<le> round_double y" "round_double y \<le> (1 + u) * y"
    by (simp_all add: algebra_simps)
  then show "(1 - 2 powi (- 53)) * y \<le> round_double y" "round_double y \<le> (1 + 2 powi (- 53)) * y"
    unfolding u_def .
qed

subsection \<open>The constants and the operations at the inputs of the counterexamples\<close>

lemma rd_c0: "round_double 1.0007 = 4506752147109655 / 4503599627370496"
  by (simp add: round_double_normal [of 0] round_half_even_def)

lemma rd_c1: "round_double 0.00000346 = 4084847007682243 / 1180591620717411303424"
  by (simp add: round_double_normal [of "- 19"] round_half_even_def)

lemma rd_c2: "round_double 6.1121 = 3440806410306401 / 562949953421312"
  by (simp add: round_double_normal [of 2] round_half_even_def)

lemma rd_c3: "round_double 17.502 = 4926375042389901 / 281474976710656"
  by (simp add: round_double_normal [of 4] round_half_even_def)

lemma rd_c4: "round_double 240.97 = 8478378142245847 / 35184372088832"
  by (simp add: round_double_normal [of 7] round_half_even_def)

lemma rd_one: "round_double 1 = 1"
  by (simp add: round_double_normal [of 0] round_half_even_def)

lemma mul_c1_p: "fmul (4084847007682243 / 1180591620717411303424) (4053 / 4)
    = 8083928184636783 / 2305843009213693952"
  by (simp add: round_double_normal [of "- 9"] round_half_even_def)

lemma add_c0: "fadd (4506752147109655 / 4503599627370496) (8083928184636783 / 2305843009213693952)
    = 2261270534672637 / 2251799813685248"
  by (simp add: round_double_normal [of 0] round_half_even_def)

lemma mul_ef_c2: "fmul (2261270534672637 / 2251799813685248) (3440806410306401 / 562949953421312)
    = 863819477185789 / 140737488355328"
  by (simp add: round_double_normal [of 2] round_half_even_def)

lemma rd_x: "round_double (863819477185789 / 140737488355328) = 863819477185789 / 140737488355328"
  by (simp add: round_double_normal [of 2] round_half_even_def)

lemma mul_30_x: "fmul 30 (863819477185789 / 140737488355328) = 3239323039446709 / 17592186044416"
  by (simp add: round_double_normal [of 7] round_half_even_def)

lemma div_30x_x: "float_div Binary64 (3239323039446709 / 17592186044416) (863819477185789 / 140737488355328)
    = Inr (30 + 1 / 2 ^ 48)"
  by (simp add: float_div_def round_double_normal [of 4] round_half_even_def)

lemma mul_64_x: "fmul 64 (863819477185789 / 140737488355328) = 863819477185789 / 2199023255552"
  by (simp add: round_double_normal [of 8] round_half_even_def)

lemma div_64x_x: "float_div Binary64 (863819477185789 / 2199023255552) (863819477185789 / 140737488355328) = Inr 64"
  by (simp add: float_div_def round_double_normal [of 6] round_half_even_def)

lemma mul_c3_tiny: "fmul (4926375042389901 / 281474976710656) (1 / 2 ^ 1074) = 18 / 2 ^ 1074"
  by (simp add: round_double_subnormal round_half_even_def)

lemma add_c4_tiny: "fadd (8478378142245847 / 35184372088832) (1 / 2 ^ 1074) = 8478378142245847 / 35184372088832"
  by (simp add: round_double_normal [of 7] round_half_even_def)

lemma div_tiny_c4: "float_div Binary64 (18 / 2 ^ 1074) (8478378142245847 / 35184372088832) = Inr 0"
  by (simp add: float_div_def round_double_subnormal round_half_even_def)

lemma div_0_c4: "float_div Binary64 0 (8478378142245847 / 35184372088832) = Inr 0"
  by (simp add: float_div_def round_double_def)

lemma add_c4_0: "fadd (8478378142245847 / 35184372088832) 0 = 8478378142245847 / 35184372088832"
  by (simp add: round_double_normal [of 7] round_half_even_def)

lemma buck_constants_b64_nth:
  "buck_constants Binary64 ! 0 = 4506752147109655 / 4503599627370496"
  "buck_constants Binary64 ! 1 = 4084847007682243 / 1180591620717411303424"
  "buck_constants Binary64 ! 2 = 3440806410306401 / 562949953421312"
  "buck_constants Binary64 ! 3 = 4926375042389901 / 281474976710656"
  "buck_constants Binary64 ! 4 = 8478378142245847 / 35184372088832"
proof -
  have eq: "buck_constants Binary64 =
    [4506752147109655 / 4503599627370496, 4084847007682243 / 1180591620717411303424,
     3440806410306401 / 562949953421312, 4926375042389901 / 281474976710656,
     8478378142245847 / 35184372088832]"
    by (simp only: buck_constants_def list.map rnd_Binary64 rd_c0 rd_c1 rd_c2 rd_c3 rd_c4)
  show
    "buck_constants Binary64 ! 0 = 4506752147109655 / 4503599627370496"
    "buck_constants Binary64 ! 1 = 4084847007682243 / 1180591620717411303424"
    "buck_constants Binary64 ! 2 = 3440806410306401 / 562949953421312"
    "buck_constants Binary64 ! 3 = 4926375042389901 / 281474976710656"
    "buck_constants Binary64 ! 4 = 8478378142245847 / 35184372088832"
    unfolding eq by simp_all
qed

lemma mul_c3_0: "fmul (4926375042389901 / 281474976710656) 0 = 0"
  by (simp add: round_double_def)

lemma exponent_at_0:
  "float_div Binary64 (fmul (buck_constants Binary64 ! 3) 0) (fadd (buck_constants Binary64 ! 4) 0) = Inr 0"
  unfolding buck_constants_b64_nth mul_c3_0 add_c4_0 by (rule div_0_c4)

lemma exponent_at_tiny:
  "float_div Binary64 (fmul (buck_constants Binary64 ! 3) (1 / 2 ^ 1074)) (fadd (buck_constants Binary64 ! 4) (1 / 2 ^ 1074)) = Inr 0"
  unfolding buck_constants_b64_nth mul_c3_tiny add_c4_tiny by (rule div_tiny_c4)

lemma enhancement_at_p:
  "fmul (fadd (buck_constants Binary64 ! 0) (fmul (buck_constants Binary64 ! 1) (4053 / 4))) (buck_constants Binary64 ! 2)
     = 863819477185789 / 140737488355328"
  unfolding buck_constants_b64_nth mul_c1_p add_c0 mul_ef_c2 by (rule refl)

lemma buck_b64_at_0:
  "buck_vapor_pressure Binary64 1013.25 0 = Inr (863819477185789 / 140737488355328)"
proof -
  have p: "(1013.25::real) = 4053 / 4" by simp
  show ?thesis
    unfolding buck_vapor_pressure_def Let_def rnd_Binary64 p exponent_at_0 enhancement_at_p
    by (simp add: rd_one rd_x)
qed

lemma buck_b64_at_tiny:
  "buck_vapor_pressure Binary64 1013.25 (1 / 2 ^ 1074) = Inr (863819477185789 / 140737488355328)"
proof -
  have p: "(1013.25::real) = 4053 / 4" by simp
  show ?thesis
    unfolding buck_vapor_pressure_def Let_def rnd_Binary64 p exponent_at_tiny enhancement_at_p
    by (simp add: rd_one rd_x)
qed

lemma ambient_humidity_b64_30:
  "ambient_humidity Binary64 30 0 1013.25 0 1013.25 = Inr (30 + 1 / 2 ^ 48)"
  unfolding ambient_humidity_def buck_b64_at_0 sum.case rnd_Binary64 mul_30_x
  by (rule div_30x_x)

lemma ambient_humidity_b64_64:
  "ambient_humidity Binary64 64 (1 / 2 ^ 1074) 1013.25 0 1013.25 = Inr 64"
  unfolding ambient_humidity_def buck_b64_at_0 buck_b64_at_tiny sum.case rnd_Binary64 mul_64_x
  by (rule div_64x_x)

subsection \<open>The saturation vapor pressure on its whole domain\<close>

lemma buck_constants_b64_literals:
  "buck_constants Binary64 ! 0 = round_double 1.0007"
  "buck_constants Binary64 ! 1 = round_double 0.00000346"
  "buck_constants Binary64 ! 2 = round_double 6.1121"
  "buck_constants Binary64 ! 3 = round_double 17.502"
  "buck_constants Binary64 ! 4 = round_double 240.97"
  by (simp_all add: buck_constants_def)

lemma exp_minus_8: "(2::real) powi (- 13) \<le> exp (- 8)"
proof -
  have "exp (8::real) = exp 1 ^ 8" using exp_of_nat_mult [of 8 "1::real"] by simp
  also have "\<dots> \<le> 3 ^ 8" using exp_le by (intro power_mono) simp_all
  also have "\<dots> \<le> (2::real) ^ 13" by simp
  finally have "exp (8::real) \<le> 2 ^ 13" .
  then have "inverse ((2::real) ^ 13) \<le> inverse (exp 8)"
    by (intro le_imp_inverse_le) simp_all
  then show ?thesis by (simp add: exp_minus)
qed

lemma enhancement_b64_ge:
  assumes "0 < p"
  shows "2 powi 2 \<le> fmul (fadd (buck_constants Binary64 ! 0) (fmul (buck_constants Binary64 ! 1) p))
                        (buck_constants Binary64 ! 2)"
proof -
  have "0 \<le> buck_constants Binary64 ! 1" unfolding buck_constants_b64_nth by simp
  then have "0 \<le> fmul (buck_constants Binary64 ! 1) p"
    using assms
    by (intro round_double_nonneg mult_nonneg_nonneg) simp_all
  then have ef: "2 powi 0 \<le> fadd (buck_constants Binary64 ! 0) (fmul (buck_constants Binary64 ! 1) p)"
    by (intro round_double_ge) (simp_all add: buck_constants_b64_nth)
  have "2 powi 2 \<le> fadd (buck_constants Binary64 ! 0) (fmul (buck_constants Binary64 ! 1) p)
                    * buck_constants Binary64 ! 2"
    using ef by (simp add: buck_constants_b64_nth field_simps)
  then show ?thesis by (intro round_double_ge) simp_all
qed

lemma exponent_b64_bound:
  assumes "- 20 \<le> t" "t \<le> 50"
  shows "fadd (buck_constants Binary64 ! 4) t \<noteq> 0"
    and "\<bar>round_double (fmul (buck_constants Binary64 ! 3) t / fadd (buck_constants Binary64 ! 4) t)\<bar> \<le> 8"
proof -
  have den: "2 powi 7 \<le> fadd (buck_constants Binary64 ! 4) t"
    using assms(1)
    by (intro round_double_ge) (simp_all add: buck_constants_b64_nth)
  then show "fadd (buck_constants Binary64 ! 4) t \<noteq> 0" by auto
  have "\<bar>buck_constants Binary64 ! 3 * t\<bar> \<le> 2 powi 10"
    using assms by (simp add: buck_constants_b64_nth abs_le_iff)
  then have num: "\<bar>fmul (buck_constants Binary64 ! 3) t\<bar> \<le> 2 powi 10"
    by (intro round_double_abs_le) simp_all
  have "\<bar>fmul (buck_constants Binary64 ! 3) t / fadd (buck_constants Binary64 ! 4) t\<bar>
      \<le> 2 powi 10 / 2 powi 7"
    unfolding abs_divide using num den by (intro frac_le) simp_all
  then have "\<bar>fmul (buck_constants Binary64 ! 3) t / fadd (buck_constants Binary64 ! 4) t\<bar> \<le> 2 powi 3"
    by simp
  then have "\<bar>round_double (fmul (buck_constants Binary64 ! 3) t / fadd (buck_constants Binary64 ! 4) t)\<bar>
      \<le> 2 powi 3"
    by (intro round_double_abs_le) simp_all
  then show "\<bar>round_double (fmul (buck_constants Binary64 ! 3) t / fadd (buck_constants Binary64 ! 4) t)\<bar> \<le> 8"
    by simp
qed

lemma fexp_rel:
  assumes "\<bar>q\<bar> \<le> 8"
  shows "(1 - 2 powi (- 53)) * exp q \<le> fexp q" "fexp q \<le> (1 + 2 powi (- 53)) * exp q"
    "2 powi (- 13) \<le> fexp q"
proof -
  have "- 8 \<le> q" using assms by simp
  then have "exp (- 8) \<le> exp q" by simp
  then have lo: "2 powi (- 13) \<le> exp q" using exp_minus_8 by (rule order_trans [rotated])
  have "(2::real) powi (- 1022) \<le> 2 powi (- 13)" by (rule power_int_increasing) simp_all
  then have n: "2 powi (- 1022) \<le> exp q" using lo by (rule order_trans)
  show "(1 - 2 powi (- 53)) * exp q \<le> fexp q" "fexp q \<le> (1 + 2 powi (- 53)) * exp q"
    using n by (rule round_double_rel)+
  show "2 powi (- 13) \<le> fexp q" using lo by (intro round_double_ge) simp_all
qed

lemma buck_vapor_pressure_b64_valid:
  assumes "0 < p" "- 20 \<le> t" "t \<le> 50"
  defines "q \<equiv> round_double (fmul (buck_constants Binary64 ! 3) t / fadd (buck_constants Binary64 ! 4) t)"
  defines "vp \<equiv> fmul (fmul (fadd (buck_constants Binary64 ! 0) (fmul (buck_constants Binary64 ! 1) p))
                        (buck_constants Binary64 ! 2)) (fexp q)"
  shows "buck_vapor_pressure Binary64 p t = Inr vp" and "2 powi (- 11) \<le> vp"
proof -
  have nz: "fadd (buck_constants Binary64 ! 4) t \<noteq> 0"
    using assms(2,3) by (rule exponent_b64_bound(1))
  have "\<bar>q\<bar> \<le> 8" unfolding q_def using assms(2,3) by (rule exponent_b64_bound(2))
  then have ex: "2 powi (- 13) \<le> fexp q" by (rule fexp_rel(3))
  have g: "2 powi 2 \<le> fmul (fadd (buck_constants Binary64 ! 0) (fmul (buck_constants Binary64 ! 1) p))
                        (buck_constants Binary64 ! 2)"
    using assms(1) by (rule enhancement_b64_ge)
  have "(2::real) powi 2 * 2 powi (- 13)
      \<le> fmul (fadd (buck_constants Binary64 ! 0) (fmul (buck_constants Binary64 ! 1) p))
               (buck_constants Binary64 ! 2) * fexp q"
    using g ex by (intro mult_mono) simp_all
  then have "2 powi (- 11)
      \<le> fmul (fadd (buck_constants Binary64 ! 0) (fmul (buck_constants Binary64 ! 1) p))
               (buck_constants Binary64 ! 2) * fexp q"
    by simp
  then show vp: "2 powi (- 11) \<le> vp"
    unfolding vp_def by (intro round_double_ge) simp_all
  have "0 < (2::real) powi (- 11)" by simp
  then have pos: "0 < vp" using vp by (rule less_le_trans)
  show "buck_vapor_pressure Binary64 p t = Inr vp"
    using assms(1,2,3) pos nz
    unfolding buck_vapor_pressure_def Let_def float_div_def rnd_Binary64 vp_def q_def
    by (simp only: simp_thms if_True if_False sum.case)
qed

subsection \<open>Temperatures that are far enough apart\<close>

lemma exponent_b64_error:
  assumes t: "- 20 \<le> t" "t \<le> 50"
  shows "\<bar>round_double (fmul (buck_constants Binary64 ! 3) t / fadd (buck_constants Binary64 ! 4) t)
          - buck_constants Binary64 ! 3 * t / (buck_constants Binary64 ! 4 + t)\<bar> \<le> 2 powi (- 45)"
proof -
  define c3 where "c3 = buck_constants Binary64 ! 3"
  define c4 where "c4 = buck_constants Binary64 ! 4"
  define N where "N = fmul c3 t"
  define D where "D = fadd c4 t"
  define S where "S = c4 + t"
  have c3: "0 \<le> c3" "c3 \<le> 18" unfolding c3_def buck_constants_b64_nth by simp_all
  have c4: "240 \<le> c4" "c4 \<le> 241" unfolding c4_def buck_constants_b64_nth by simp_all
  have S: "220 \<le> S" "S \<le> 291" unfolding S_def using c4 t by simp_all
  have "\<bar>c3 * t\<bar> = c3 * \<bar>t\<bar>" using c3(1) by (simp add: abs_mult)
  also have "\<dots> \<le> 18 * 50" using c3 t by (intro mult_mono) simp_all
  finally have ct: "\<bar>c3 * t\<bar> \<le> 900" by simp
  have "\<bar>N - c3 * t\<bar> \<le> 2 powi (- 53) * \<bar>c3 * t\<bar> + 2 powi (- 1075)"
    unfolding N_def by (rule round_double_abs_error)
  also have "\<dots> \<le> 2 powi (- 53) * 900 + 2 powi (- 60)"
    using ct tiny by (intro add_mono mult_left_mono) simp_all
  also have "\<dots> \<le> 2 powi (- 42)" by (simp add: power_int_minus field_simps)
  finally have eN: "\<bar>N - c3 * t\<bar> \<le> 2 powi (- 42)" .
  have "\<bar>D - S\<bar> \<le> 2 powi (- 53) * \<bar>S\<bar> + 2 powi (- 1075)"
    unfolding D_def S_def by (rule round_double_abs_error)
  also have "\<dots> \<le> 2 powi (- 53) * 291 + 2 powi (- 60)"
    using S tiny by (intro add_mono mult_left_mono) simp_all
  also have "\<dots> \<le> 2 powi (- 43)" by (simp add: power_int_minus field_simps)
  finally have eD: "\<bar>D - S\<bar> \<le> 2 powi (- 43)" .
  have D: "2 powi 7 \<le> D"
    unfolding D_def using S(1) by (intro round_double_ge) (simp_all add: S_def)
  have Dpos: "0 < D" using D by simp
  have Spos: "0 < S" using S(1) by simp
  have "\<bar>c3 * t\<bar> \<le> 2 powi 10" using ct by simp
  then have N: "\<bar>N\<bar> \<le> 2 powi 10"
    unfolding N_def by (intro round_double_abs_le) simp_all
  have id: "N / D - c3 * t / S = ((N - c3 * t) * S + c3 * t * (S - D)) / (D * S)"
    using Dpos Spos by (simp add: field_simps)
  have "\<bar>(N - c3 * t) * S + c3 * t * (S - D)\<bar> \<le> \<bar>(N - c3 * t) * S\<bar> + \<bar>c3 * t * (S - D)\<bar>"
    by (rule abs_triangle_ineq)
  also have "\<dots> = \<bar>N - c3 * t\<bar> * \<bar>S\<bar> + \<bar>c3 * t\<bar> * \<bar>D - S\<bar>"
    by (simp add: abs_mult abs_minus_commute)
  also have "\<dots> \<le> 2 powi (- 42) * 291 + 900 * 2 powi (- 43)"
    using eN eD ct S by (intro add_mono mult_mono) simp_all
  also have "\<dots> \<le> 2 powi (- 32)" by (simp add: power_int_minus field_simps)
  finally have num: "\<bar>(N - c3 * t) * S + c3 * t * (S - D)\<bar> \<le> 2 powi (- 32)" .
  have "(2::real) powi 7 * 220 \<le> D * S" using D S(1) by (intro mult_mono) simp_all
  then have den: "2 powi 14 \<le> D * S" by simp
  have "\<bar>N / D - c3 * t / S\<bar> = \<bar>(N - c3 * t) * S + c3 * t * (S - D)\<bar> / (D * S)"
    unfolding id using Dpos Spos by (simp add: abs_mult)
  also have "\<dots> \<le> 2 powi (- 32) / 2 powi 14"
    using num den by (intro frac_le) simp_all
  also have "\<dots> = 2 powi (- 46)" by (simp add: power_int_minus field_simps)
  finally have e1: "\<bar>N / D - c3 * t / S\<bar> \<le> 2 powi (- 46)" .
  have "\<bar>N / D\<bar> \<le> 2 powi 10 / 2 powi 7"
    unfolding abs_divide using N D by (intro frac_le) simp_all
  then have q: "\<bar>N / D\<bar> \<le> 8" by simp
  have "\<bar>round_double (N / D) - N / D\<bar> \<le> 2 powi (- 53) * \<bar>N / D\<bar> + 2 powi (- 1075)"
    by (rule round_double_abs_error)
  also have "\<dots> \<le> 2 powi (- 53) * 8 + 2 powi (- 60)"
    using q tiny by (intro add_mono mult_left_mono) simp_all
  also have "\<dots> \<le> 2 powi (- 46)" by (simp add: power_int_minus field_simps)
  finally have e2: "\<bar>round_double (N / D) - N / D\<bar> \<le> 2 powi (- 46)" .
  have "\<bar>round_double (N / D) - c3 * t / S\<bar>
      \<le> \<bar>round_double (N / D) - N / D\<bar> + \<bar>N / D - c3 * t / S\<bar>" by linarith
  also have "\<dots> \<le> 2 powi (- 46) + 2 powi (- 46)" using e1 e2 by linarith
  also have "\<dots> = 2 powi (- 45)" by (simp add: power_int_minus field_simps)
  finally show ?thesis unfolding N_def D_def S_def c3_def c4_def .
qed

lemma exponent_gap:
  assumes t: "- 20 \<le> t1" "t1 \<le> t2" "t2 \<le> 50"
  shows "2 powi (- 5) * (t2 - t1)
    \<le> buck_constants Binary64 ! 3 * t2 / (buck_constants Binary64 ! 4 + t2)
      - buck_constants Binary64 ! 3 * t1 / (buck_constants Binary64 ! 4 + t1)"
proof -
  define c3 where "c3 = buck_constants Binary64 ! 3"
  define c4 where "c4 = buck_constants Binary64 ! 4"
  have c3: "17 \<le> c3" unfolding c3_def buck_constants_b64_nth by simp
  have c4: "240 \<le> c4" "c4 \<le> 241" unfolding c4_def buck_constants_b64_nth by simp_all
  have S1: "0 < c4 + t1" "c4 + t1 \<le> 291" and S2: "0 < c4 + t2" "c4 + t2 \<le> 291"
    using c4 t by simp_all
  have id: "c3 * t2 / (c4 + t2) - c3 * t1 / (c4 + t1)
      = c3 * c4 * (t2 - t1) / ((c4 + t1) * (c4 + t2))"
    using S1(1) S2(1) by (simp add: field_simps)
  have "(c4 + t1) * (c4 + t2) \<le> 291 * 291" using S1 S2 by (intro mult_mono) simp_all
  moreover have "17 * 240 \<le> c3 * c4" using c3 c4 by (intro mult_mono) simp_all
  moreover have "0 \<le> t2 - t1" using t by simp
  ultimately have "17 * 240 * (t2 - t1) / (291 * 291) \<le> c3 * c4 * (t2 - t1) / ((c4 + t1) * (c4 + t2))"
    using S1(1) S2(1) by (intro frac_le mult_right_mono mult_pos_pos) simp_all
  moreover have "2 powi (- 5) * (t2 - t1) \<le> 17 * 240 * (t2 - t1) / (291 * 291)"
    using \<open>0 \<le> t2 - t1\<close> by (simp add: power_int_minus field_simps)
  ultimately have "2 powi (- 5) * (t2 - t1) \<le> c3 * t2 / (c4 + t2) - c3 * t1 / (c4 + t1)"
    unfolding id by linarith
  then show ?thesis unfolding c3_def c4_def .
qed

lemma roundoff_margin:
  "(1 + 2 powi (- 42)) * ((1 + 2 powi (- 53)) * (1 + 2 powi (- 53)))
     \<le> (1 - 2 powi (- 53)) * (1 - 2 powi (- 53)) * (1 + (2::real) powi (- 40))"
  by (simp add: power_int_minus field_simps)

lemma buck_vapor_pressure_b64_gap:
  assumes p: "0 < p" and t: "- 20 \<le> t1" "t1 + 2 powi (- 34) \<le> t2" "t2 \<le> 50"
  shows "\<exists>v1 v2. buck_vapor_pressure Binary64 p t1 = Inr v1 \<and> buck_vapor_pressure Binary64 p t2 = Inr v2
           \<and> 2 powi (- 11) \<le> v1 \<and> (1 + 2 powi (- 42)) * v1 \<le> v2"
proof -
  define u where "u = (2::real) powi (- 53)"
  define G where "G = fmul (fadd (buck_constants Binary64 ! 0) (fmul (buck_constants Binary64 ! 1) p))
                        (buck_constants Binary64 ! 2)"
  define q1 where "q1 = round_double (fmul (buck_constants Binary64 ! 3) t1 / fadd (buck_constants Binary64 ! 4) t1)"
  define q2 where "q2 = round_double (fmul (buck_constants Binary64 ! 3) t2 / fadd (buck_constants Binary64 ! 4) t2)"
  define f1 where "f1 = buck_constants Binary64 ! 3 * t1 / (buck_constants Binary64 ! 4 + t1)"
  define f2 where "f2 = buck_constants Binary64 ! 3 * t2 / (buck_constants Binary64 ! 4 + t2)"
  define v1 where "v1 = fmul G (fexp q1)"
  define v2 where "v2 = fmul G (fexp q2)"
  have "(0::real) < 2 powi (- 34)" by simp
  then have t12: "t1 \<le> t2" and t1: "t1 \<le> 50" and t2: "- 20 \<le> t2" using t by linarith+
  have b1: "buck_vapor_pressure Binary64 p t1 = Inr v1"
    unfolding v1_def G_def q1_def using p t(1) t1 by (rule buck_vapor_pressure_b64_valid(1))
  have b2: "buck_vapor_pressure Binary64 p t2 = Inr v2"
    unfolding v2_def G_def q2_def using p t2 t(3) by (rule buck_vapor_pressure_b64_valid(1))
  have v1pos: "2 powi (- 11) \<le> v1"
    unfolding v1_def G_def q1_def using p t(1) t1 by (rule buck_vapor_pressure_b64_valid(2))
  have G: "2 powi 2 \<le> G" unfolding G_def using p by (rule enhancement_b64_ge)
  have Gpos: "0 < G" using G by simp
  have q1b: "\<bar>q1\<bar> \<le> 8" unfolding q1_def using t(1) t1 by (rule exponent_b64_bound(2))
  have q2b: "\<bar>q2\<bar> \<le> 8" unfolding q2_def using t2 t(3) by (rule exponent_b64_bound(2))
  have e1: "\<bar>q1 - f1\<bar> \<le> 2 powi (- 45)"
    unfolding q1_def f1_def using t(1) t1 by (rule exponent_b64_error)
  have e2: "\<bar>q2 - f2\<bar> \<le> 2 powi (- 45)"
    unfolding q2_def f2_def using t2 t(3) by (rule exponent_b64_error)
  have "2 powi (- 5) * (t2 - t1) \<le> f2 - f1"
    unfolding f1_def f2_def using t(1) t12 t(3) by (rule exponent_gap)
  moreover have "(2::real) powi (- 5) * 2 powi (- 34) \<le> 2 powi (- 5) * (t2 - t1)"
    using t(2) by (intro mult_left_mono) simp_all
  ultimately have "(2::real) powi (- 5) * 2 powi (- 34) \<le> f2 - f1" by linarith
  moreover have "q1 \<le> f1 + 2 powi (- 45)" "f2 - 2 powi (- 45) \<le> q2"
    using e1 e2 by linarith+
  moreover have "(2::real) powi (- 40)
      \<le> 2 powi (- 5) * 2 powi (- 34) - 2 powi (- 45) - 2 powi (- 45)"
    by (simp add: power_int_minus field_simps)
  ultimately have "2 powi (- 40) \<le> q2 - q1" by linarith
  then have "1 + 2 powi (- 40) \<le> 1 + (q2 - q1)" by simp
  also have "\<dots> \<le> exp (q2 - q1)" by (rule exp_ge_add_one_self)
  finally have "(1 + 2 powi (- 40)) * exp q1 \<le> exp (q2 - q1) * exp q1"
    by (intro mult_right_mono) simp_all
  then have ex: "(1 + 2 powi (- 40)) * exp q1 \<le> exp q2" by (simp flip: exp_add)
  note E1 = fexp_rel [OF q1b, folded u_def]
  note E2 = fexp_rel [OF q2b, folded u_def]
  have u: "0 \<le> 1 - u" "0 \<le> 1 + u" "0 \<le> u" unfolding u_def by (simp_all add: power_int_minus)
  have n1: "2 powi (- 1022) \<le> G * fexp q1" and n2: "2 powi (- 1022) \<le> G * fexp q2"
  proof -
    have low: "(2::real) powi (- 1022) \<le> 2 powi 2 * 2 powi (- 13)"
      by (simp flip: power_int_add add: power_int_increasing)
    have "(2::real) powi 2 * 2 powi (- 13) \<le> G * fexp q1"
      using G E1(3) by (intro mult_mono) simp_all
    then show "2 powi (- 1022) \<le> G * fexp q1" using low by linarith
    have "(2::real) powi 2 * 2 powi (- 13) \<le> G * fexp q2"
      using G E2(3) by (intro mult_mono) simp_all
    then show "2 powi (- 1022) \<le> G * fexp q2" using low by linarith
  qed
  have "v1 \<le> (1 + u) * (G * fexp q1)"
    unfolding v1_def u_def using n1 by (rule round_double_rel(2))
  also have "\<dots> \<le> (1 + u) * (G * ((1 + u) * exp q1))"
    using E1(2) u Gpos by (intro mult_left_mono) simp_all
  finally have up: "v1 \<le> (1 + u) * (1 + u) * (G * exp q1)" by (simp add: mult_ac)
  have "(1 - u) * (1 - u) * (1 + 2 powi (- 40)) * (G * exp q1)
      = (1 - u) * (G * ((1 - u) * ((1 + 2 powi (- 40)) * exp q1)))" by (simp add: mult_ac)
  also have "\<dots> \<le> (1 - u) * (G * ((1 - u) * exp q2))"
    using ex u Gpos by (intro mult_left_mono) simp_all
  also have "\<dots> \<le> (1 - u) * (G * fexp q2)"
    using E2(1) u Gpos by (intro mult_left_mono) simp_all
  also have "\<dots> \<le> v2"
    unfolding v2_def u_def using n2 by (rule round_double_rel(1))
  finally have lo: "(1 - u) * (1 - u) * (1 + 2 powi (- 40)) * (G * exp q1) \<le> v2" .
  have K: "0 \<le> G * exp q1" using Gpos by simp
  have "(1 + 2 powi (- 42)) * v1 \<le> (1 + 2 powi (- 42)) * ((1 + u) * (1 + u) * (G * exp q1))"
    using up by (intro mult_left_mono) simp_all
  also have "\<dots> = (1 + 2 powi (- 42)) * ((1 + u) * (1 + u)) * (G * exp q1)"
    by (simp add: mult_ac)
  also have "\<dots> \<le> (1 - u) * (1 - u) * (1 + 2 powi (- 40)) * (G * exp q1)"
    unfolding u_def using roundoff_margin K by (rule mult_right_mono)
  also have "\<dots> \<le> v2" by (rule lo)
  finally show ?thesis using b1 b2 v1pos by blast
qed

subsection \<open>The humidity correction\<close>

lemma ambient_humidity_b64_round_trip_error:
  assumes p: "0 < p" and t: "- 20 \<le> t" "t \<le> 50" and h: "2 powi (- 1000) \<le> \<bar>h\<bar>"
  shows "\<exists>v. ambient_humidity Binary64 h t p t p = Inr v \<and> \<bar>v - h\<bar> \<le> 2 powi (- 51) * \<bar>h\<bar>"
proof -
  define x where "x = fmul (fmul (fadd (buck_constants Binary64 ! 0) (fmul (buck_constants Binary64 ! 1) p))
        (buck_constants Binary64 ! 2))
      (fexp (round_double (fmul (buck_constants Binary64 ! 3) t / fadd (buck_constants Binary64 ! 4) t)))"
  have bx: "buck_vapor_pressure Binary64 p t = Inr x"
    unfolding x_def using p t by (rule buck_vapor_pressure_b64_valid(1))
  have xl: "2 powi (- 11) \<le> x"
    unfolding x_def using p t by (rule buck_vapor_pressure_b64_valid(2))
  have "(0::real) < 2 powi (- 11)" by simp
  then have xp: "0 < x" using xl by (rule less_le_trans)
  define a where "a = fmul h x"
  define r where "r = round_double (a / x)"
  have res: "ambient_humidity Binary64 h t p t p = Inr r"
    unfolding ambient_humidity_def bx float_div_def r_def a_def using xp by simp
  have hpos: "0 < \<bar>h\<bar>" using h by (smt (verit) zero_less_power_int)
  have "(2::real) powi (- 1000) * 2 powi (- 11) \<le> \<bar>h\<bar> * x"
    using h xl by (intro mult_mono) simp_all
  moreover have "(2::real) powi (- 1022) \<le> 2 powi (- 1000) * 2 powi (- 11)"
    by (simp flip: power_int_add add: power_int_increasing)
  ultimately have "2 powi (- 1022) \<le> \<bar>h * x\<bar>" using xp by (simp add: abs_mult)
  then have "\<bar>a - h * x\<bar> \<le> 2 powi (- 53) * \<bar>h * x\<bar>"
    unfolding a_def by (rule round_double_error)
  then have "\<bar>a - h * x\<bar> / x \<le> 2 powi (- 53) * \<bar>h * x\<bar> / x"
    by (rule divide_right_mono) (rule less_imp_le [OF xp])
  moreover have "\<bar>a - h * x\<bar> / x = \<bar>a / x - h\<bar>"
  proof -
    have "a / x - h = (a - h * x) / x" using xp by (simp add: field_simps)
    then have "\<bar>a / x - h\<bar> = \<bar>a - h * x\<bar> / \<bar>x\<bar>" by (simp only: abs_divide)
    then show ?thesis using xp by simp
  qed
  moreover have "2 powi (- 53) * \<bar>h * x\<bar> / x = 2 powi (- 53) * \<bar>h\<bar>"
    using xp by (simp add: abs_mult)
  ultimately have e1: "\<bar>a / x - h\<bar> \<le> 2 powi (- 53) * \<bar>h\<bar>" by simp
  have small: "(2::real) powi (- 53) \<le> 1 / 2" by simp
  have "2 powi (- 53) * \<bar>h\<bar> \<le> 1 / 2 * \<bar>h\<bar>"
    using small by (intro mult_right_mono) simp_all
  then have lo: "\<bar>h\<bar> / 2 \<le> \<bar>a / x\<bar>" and up: "\<bar>a / x\<bar> \<le> 2 * \<bar>h\<bar>"
    using e1 by linarith+
  have "(2::real) powi (- 1022) \<le> 2 powi (- 1000) / 2"
    by (simp add: power_int_minus field_simps)
  also have "\<dots> \<le> \<bar>h\<bar> / 2" using h by simp
  finally have "2 powi (- 1022) \<le> \<bar>a / x\<bar>" using lo by linarith
  then have "\<bar>r - a / x\<bar> \<le> 2 powi (- 53) * \<bar>a / x\<bar>"
    unfolding r_def by (rule round_double_error)
  also have "\<dots> \<le> 2 powi (- 53) * (2 * \<bar>h\<bar>)"
    using up by (intro mult_left_mono) simp_all
  finally have e2: "\<bar>r - a / x\<bar> \<le> 2 powi (- 52) * \<bar>h\<bar>"
    by (simp add: power_int_minus field_simps)
  have "\<bar>r - h\<bar> \<le> \<bar>r - a / x\<bar> + \<bar>a / x - h\<bar>" by linarith
  also have "\<dots> \<le> 2 powi (- 52) * \<bar>h\<bar> + 2 powi (- 53) * \<bar>h\<bar>" using e1 e2 by linarith
  also have "\<dots> \<le> 2 powi (- 51) * \<bar>h\<bar>"
  proof -
    have "(2::real) powi (- 52) + 2 powi (- 53) \<le> 2 powi (- 51)"
      by (simp add: power_int_minus field_simps)
    then have "(2 powi (- 52) + 2 powi (- 53)) * \<bar>h\<bar> \<le> 2 powi (- 51) * \<bar>h\<bar>"
      by (intro mult_right_mono) simp_all
    then show ?thesis by (simp add: algebra_simps)
  qed
  finally show ?thesis using res by blast
qed

lemma ambient_humidity_b64_zero:
  assumes "0 < p" "- 20 \<le> t" "t \<le> 50"
  shows "ambient_humidity Binary64 0 t p t p = Inr 0"
proof -
  have "(0::real) < 2 powi (- 11)" by simp
  then have "0 < fmul (fmul (fadd (buck_constants Binary64 ! 0) (fmul (buck_constants Binary64 ! 1) p))
        (buck_constants Binary64 ! 2))
      (fexp (round_double (fmul (buck_constants Binary64 ! 3) t / fadd (buck_constants Binary64 ! 4) t)))"
    using buck_vapor_pressure_b64_valid(2) [OF assms] by (rule less_le_trans)
  then show ?thesis
    unfolding ambient_humidity_def buck_vapor_pressure_b64_valid(1) [OF assms]
    by (simp add: float_div_def round_double_def)
qed

lemma humidity_margin:
  "1 < (1 - 2 powi (- 53)) * (1 - 2 powi (- 53)) * (1 + (2::real) powi (- 42))"
  by (simp add: power_int_minus field_simps)

lemma ambient_humidity_b64_increases:
  assumes p: "0 < p" and t: "- 20 \<le> ta" "ta + 2 powi (- 34) \<le> tm" "tm \<le> 50"
    and h: "2 powi (- 1000) \<le> h"
  shows "\<exists>inside ambient v.
      buck_vapor_pressure Binary64 p tm = Inr inside \<and> buck_vapor_pressure Binary64 p ta = Inr ambient
    \<and> ambient < inside \<and> ambient_humidity Binary64 h tm p ta p = Inr v \<and> h < v"
proof -
  define u where "u = (2::real) powi (- 53)"
  define b where "b = (2::real) powi (- 42)"
  obtain ambient inside where a: "buck_vapor_pressure Binary64 p ta = Inr ambient"
    and i: "buck_vapor_pressure Binary64 p tm = Inr inside"
    and al: "2 powi (- 11) \<le> ambient" and gap: "(1 + b) * ambient \<le> inside"
    unfolding b_def using buck_vapor_pressure_b64_gap [OF p t] by blast
  have "(0::real) < 2 powi (- 11)" by simp
  then have apos: "0 < ambient" using al by linarith
  have bpos: "0 < b" unfolding b_def by simp
  have "b * ambient > 0" using bpos apos by (rule mult_pos_pos)
  then have less: "ambient < inside" using gap by (simp add: algebra_simps)
  have il: "2 powi (- 11) \<le> inside" using al less by linarith
  have hpos: "0 < h" using h by (smt (verit) zero_less_power_int)
  have u: "0 \<le> 1 - u" "0 \<le> u" "u \<le> 1 / 2" unfolding u_def by (simp_all add: power_int_minus)
  define y where "y = fmul h inside"
  define r where "r = round_double (y / ambient)"
  have res: "ambient_humidity Binary64 h tm p ta p = Inr r"
    unfolding ambient_humidity_def a i float_div_def r_def y_def using apos by simp
  have low: "(2::real) powi (- 1022) \<le> 2 powi (- 1000) * 2 powi (- 11)"
    by (simp flip: power_int_add add: power_int_increasing)
  have "(2::real) powi (- 1000) * 2 powi (- 11) \<le> h * inside"
    using h il by (intro mult_mono) simp_all
  then have "2 powi (- 1022) \<le> h * inside" using low by linarith
  then have y1: "(1 - u) * (h * inside) \<le> y"
    unfolding y_def u_def by (rule round_double_rel(1))
  have "(1 - u) * (h * ((1 + b) * ambient)) \<le> (1 - u) * (h * inside)"
    using gap u(1) hpos by (intro mult_left_mono) simp_all
  then have "(1 - u) * (1 + b) * h * ambient \<le> y" using y1 by (simp add: mult_ac)
  then have y2: "(1 - u) * (1 + b) * h \<le> y / ambient" using apos by (simp add: pos_le_divide_eq)
  have "1 / 2 * 1 * h \<le> (1 - u) * (1 + b) * h"
    using u bpos hpos by (intro mult_right_mono mult_mono) simp_all
  then have "h / 2 \<le> y / ambient" using y2 by linarith
  moreover have "(2::real) powi (- 1022) \<le> 2 powi (- 1000) / 2"
    by (simp add: power_int_minus field_simps)
  ultimately have "2 powi (- 1022) \<le> y / ambient" using h by linarith
  then have "(1 - u) * (y / ambient) \<le> r"
    unfolding r_def u_def by (rule round_double_rel(1))
  moreover have "(1 - u) * ((1 - u) * (1 + b) * h) \<le> (1 - u) * (y / ambient)"
    using y2 u(1) by (rule mult_left_mono)
  ultimately have "(1 - u) * (1 - u) * (1 + b) * h \<le> r" by (simp add: mult_ac)
  moreover have "1 * h < (1 - u) * (1 - u) * (1 + b) * h"
    unfolding u_def b_def using humidity_margin hpos by (rule mult_strict_right_mono)
  ultimately have "h < r" by simp
  then show ?thesis using a i less res by blast
qed

subsection \<open>The temperature correction\<close>

lemma rd_a_fit: "round_double 0.8542 = 7693949603399755 / 9007199254740992"
  by (simp add: round_double_normal [of "- 1"] round_half_even_def)

lemma rd_b_fit: "round_double 9.675 = 2723270399675597 / 281474976710656"
  by (simp add: round_double_normal [of 3] round_half_even_def)

lemma round_double_near:
  assumes "\<bar>y\<bar> \<le> 64"
  shows "\<bar>round_double y - y\<bar> \<le> 1"
proof -
  have "\<bar>round_double y - y\<bar> \<le> 2 powi (- 53) * \<bar>y\<bar> + 2 powi (- 1075)"
    by (rule round_double_abs_error)
  also have "\<dots> \<le> 2 powi (- 53) * 64 + 2 powi (- 60)"
    using assms tiny by (intro add_mono mult_left_mono) simp_all
  also have "\<dots> \<le> 1" by (simp add: power_int_minus field_simps)
  finally show ?thesis .
qed

lemma ambient_temperature_b64_range:
  assumes "0 \<le> t" "t \<le> 50"
  shows "- 20 \<le> ambient_temperature Binary64 t" "ambient_temperature Binary64 t \<le> 50"
proof -
  define a where "a = round_double 0.8542"
  define b where "b = round_double 9.675"
  have a: "0 \<le> a" "a \<le> 1" unfolding a_def rd_a_fit by simp_all
  have b: "9 \<le> b" "b \<le> 10" unfolding b_def rd_b_fit by simp_all
  have "a * t \<le> 1 * 50" using a assms by (intro mult_mono) simp_all
  moreover have "0 \<le> a * t" using a(1) assms(1) by (rule mult_nonneg_nonneg)
  ultimately have y1: "0 \<le> a * t" "a * t \<le> 50" by simp_all
  then have "\<bar>round_double (a * t) - a * t\<bar> \<le> 1" by (intro round_double_near) simp
  then have r1: "- 1 \<le> round_double (a * t)" "round_double (a * t) \<le> 51"
    using y1 by (simp_all add: abs_le_iff)
  then have "\<bar>round_double (a * t) + - b\<bar> \<le> 64" using b by (simp add: abs_le_iff)
  then have "\<bar>round_double (round_double (a * t) + - b) - (round_double (a * t) + - b)\<bar> \<le> 1"
    by (rule round_double_near)
  then have "- 20 \<le> round_double (round_double (a * t) + - b)"
    "round_double (round_double (a * t) + - b) \<le> 50"
    using r1 b by (simp_all add: abs_le_iff)
  then show "- 20 \<le> ambient_temperature Binary64 t" "ambient_temperature Binary64 t \<le> 50"
    unfolding ambient_temperature_def Let_def rnd_Binary64 a_def b_def .
qed

lemma ambient_temperature_b64_30:
  "ambient_temperature Binary64 30 = 4489807353511673 / 281474976710656"
proof -
  have m: "round_double (7693949603399755 / 9007199254740992 * 30)
      = 3606538876593635 / 140737488355328"
    by (simp add: round_double_normal [of 4] round_half_even_def)
  have s: "round_double (3606538876593635 / 140737488355328
                          + - (2723270399675597 / 281474976710656))
      = 4489807353511673 / 281474976710656"
    by (simp add: round_double_normal [of 3] round_half_even_def)
  show ?thesis
    unfolding ambient_temperature_def Let_def rnd_Binary64 rd_a_fit rd_b_fit m s by (rule refl)
qed

section \<open>Both arithmetics: the errors and the class Sensor\<close>

lemma buck_error_kinds:
  "buck_vapor_pressure ar p t = Inl e \<Longrightarrow> e \<noteq> SensorOutOfRange q b \<and> e \<noteq> NotReady a"
  by (auto simp: buck_vapor_pressure_def float_div_def Let_def split: if_splits)

lemma ambient_humidity_error_kinds:
  "ambient_humidity ar h tm pm ta pa = Inl e \<Longrightarrow> e \<noteq> SensorOutOfRange q b \<and> e \<noteq> NotReady a"
  by (auto simp: ambient_humidity_def float_div_def split: sum.splits if_splits
      dest: buck_error_kinds)

lemma buck_vapor_pressure_returns:
  assumes "0 < p" "- 20 \<le> t" "t \<le> 50"
  shows "\<exists>v. buck_vapor_pressure ar p t = Inr v \<and> 0 < v"
proof (cases ar)
  case Exact
  show ?thesis
    unfolding Exact buck_vapor_pressure_valid [OF assms]
    using buck_value_positive [OF assms(1)] by blast
next
  case Binary64
  have "(0::real) < 2 powi (- 11)" by simp
  then show ?thesis
    unfolding Binary64 buck_vapor_pressure_b64_valid(1) [OF assms]
    using buck_vapor_pressure_b64_valid(2) [OF assms] by (blast intro: less_le_trans)
qed

lemma ambient_humidity_returns:
  assumes "0 < pm" "- 20 \<le> tm" "tm \<le> 50" "0 < pa" "- 20 \<le> ta" "ta \<le> 50"
  shows "\<exists>v. ambient_humidity ar h tm pm ta pa = Inr v"
proof -
  obtain inside where i: "buck_vapor_pressure ar pm tm = Inr inside"
    using buck_vapor_pressure_returns [OF assms(1,2,3)] by blast
  obtain ambient where a: "buck_vapor_pressure ar pa ta = Inr ambient" "0 < ambient"
    using buck_vapor_pressure_returns [OF assms(4,5,6)] by blast
  show ?thesis unfolding ambient_humidity_def i a(1) using a(2) by (simp add: float_div_def)
qed

lemma ambient_temperature_in_range:
  assumes "0 \<le> t" "t \<le> 50"
  shows "- 20 \<le> ambient_temperature ar t" "ambient_temperature ar t \<le> 50"
  using assms ambient_temperature_range ambient_temperature_b64_range
  by (cases ar; simp)+

lemma update_out_of_range:
  assumes "\<not> in_sensor_range sense"
  shows "\<exists>q b. fst (update ar sense utcnow s) = Raised (SensorOutOfRange q b)"
    and "corrected_record (snd (update ar sense utcnow s)) = corrected_record s"
  using assms
  by (auto simp: update_def in_sensor_range_def corrected_record_def Let_def)

lemma update_in_range:
  assumes "in_sensor_range sense"
  shows "update ar sense utcnow s =
    (case ambient_humidity ar (get_humidity sense) (get_temperature_from_humidity sense)
            (get_pressure sense) (ambient_temperature ar (get_temperature_from_humidity sense))
            (ambient_pressure (get_pressure sense)) of
       Inl e \<Rightarrow> (Raised e, measured ar sense utcnow s)
     | Inr v \<Rightarrow> (Done, (measured ar sense utcnow s)\<lparr>self_ambient_humidity := Some v\<rparr>))"
  using assms
  by (simp add: update_def in_sensor_range_def compute_ambient_values_def getattr_def
      measured_def Let_def split: sum.splits)

lemma update_not_SensorOutOfRange:
  assumes "in_sensor_range sense"
  shows "fst (update ar sense utcnow s) \<noteq> Raised (SensorOutOfRange q b)"
  unfolding update_in_range [OF assms]
  by (auto split: sum.splits dest: ambient_humidity_error_kinds)

lemma update_Done_record:
  assumes "update ar sense utcnow s = (Done, s')"
  shows "timestamp s' = Some utcnow"
    and "self_ambient_temperature s'
           = Some (ambient_temperature ar (get_temperature_from_humidity sense))"
    and "self_ambient_pressure s' = Some (get_pressure sense)"
    and "\<exists>v. self_ambient_humidity s' = Some v"
proof -
  have r: "in_sensor_range sense"
    using assms update_out_of_range(1) [of sense ar utcnow s] by fastforce
  show "timestamp s' = Some utcnow"
    and "self_ambient_temperature s'
           = Some (ambient_temperature ar (get_temperature_from_humidity sense))"
    and "self_ambient_pressure s' = Some (get_pressure sense)"
    and "\<exists>v. self_ambient_humidity s' = Some v"
    using assms unfolding update_in_range [OF r]
    by (auto simp: measured_def ambient_pressure_def split: sum.splits)
qed

lemma update_succeeds:
  assumes "in_sensor_range sense" "get_temperature_from_humidity sense \<le> 50"
  shows "fst (update ar sense utcnow s) = Done"
proof -
  have t: "0 \<le> get_temperature_from_humidity sense" and p: "0 < get_pressure sense"
    using assms(1) by (simp_all add: in_sensor_range_def)
  have t': "- 20 \<le> get_temperature_from_humidity sense" using t by simp
  have p': "0 < ambient_pressure (get_pressure sense)" using p by (simp add: ambient_pressure_def)
  have "\<exists>v. ambient_humidity ar (get_humidity sense) (get_temperature_from_humidity sense)
            (get_pressure sense) (ambient_temperature ar (get_temperature_from_humidity sense))
            (ambient_pressure (get_pressure sense)) = Inr v"
    using p t' assms(2) p' ambient_temperature_in_range [OF t assms(2)]
    by (rule ambient_humidity_returns)
  then show ?thesis unfolding update_in_range [OF assms(1)] by auto
qed

lemma update_hot:
  assumes "in_sensor_range sense" "50 < get_temperature_from_humidity sense"
  shows "buck_vapor_pressure ar (get_pressure sense) (get_temperature_from_humidity sense)
           = Inl (InvalidInput Temperature Above)"
    and "update ar sense utcnow s
           = (Raised (InvalidInput Temperature Above), measured ar sense utcnow s)"
proof -
  have p: "0 < get_pressure sense" and t: "- 20 \<le> get_temperature_from_humidity sense"
    using assms(1) by (simp_all add: in_sensor_range_def)
  show b: "buck_vapor_pressure ar (get_pressure sense) (get_temperature_from_humidity sense)
           = Inl (InvalidInput Temperature Above)"
    using p t assms(2) by (simp add: buck_vapor_pressure_def)
  show "update ar sense utcnow s
           = (Raised (InvalidInput Temperature Above), measured ar sense utcnow s)"
    unfolding update_in_range [OF assms(1)] by (simp add: ambient_humidity_def b)
qed

lemma never_updated_humidity: "never_updated ar s \<Longrightarrow> self_ambient_humidity s = None"
proof (induction rule: never_updated.induct)
  case fresh
  show ?case by (simp add: init_def)
next
  case (failed s sense utcnow e s')
  show ?case
  proof (cases "in_sensor_range sense")
    case True
    with failed.hyps(2) failed.IH show ?thesis
      unfolding update_in_range [OF True]
      by (auto simp: measured_def split: sum.splits)
  next
    case False
    from update_out_of_range(2) [OF False, of ar utcnow s] failed.hyps(2) failed.IH
    show ?thesis by (simp add: corrected_record_def)
  qed
qed

section \<open>The claims\<close>

subsection \<open>Saturation vapor pressure\<close>

text \<open>
  Claim C1. For every air pressure above 0 and every temperature from -20 to 50,
  \<open>buck_vapor_pressure\<close> passes its four assertions and returns
  \<open>(1.0007 + 3.46e-6 * air_pressure) * 6.1121 * exp (17.502 * temperature / (240.97 + temperature))\<close>:
  in exact arithmetic the value of the formula, and in double-precision arithmetic the
  same expression with every literal and every operation rounded.
\<close>

theorem buck_vapor_pressure_formula:
  "0 < air_pressure \<Longrightarrow> - 20 \<le> temperature \<Longrightarrow> temperature \<le> 50 \<Longrightarrow>
   buck_vapor_pressure Exact air_pressure temperature =
     Inr ((1.0007 + 0.00000346 * air_pressure) * 6.1121
          * exp (17.502 * temperature / (240.97 + temperature)))
   \<and> buck_vapor_pressure Binary64 air_pressure temperature =
     Inr (fmul (fmul (fadd (round_double 1.0007) (fmul (round_double 0.00000346) air_pressure))
                     (round_double 6.1121))
               (fexp (round_double (fmul (round_double 17.502) temperature
                                    / fadd (round_double 240.97) temperature))))"
proof -
  assume a: "0 < air_pressure" "- 20 \<le> temperature" "temperature \<le> 50"
  show ?thesis
    using buck_vapor_pressure_valid [OF a] buck_vapor_pressure_b64_valid(1) [OF a]
    unfolding buck_constants_b64_literals by (rule conjI)
qed

theorem buck_vapor_pressure_formula_witness:
  "(0::real) < 1013.25 \<and> - 20 \<le> (20::real) \<and> (20::real) \<le> 50 \<and>
   buck_vapor_pressure Exact 1013.25 20 =
     Inr ((1.0007 + 0.00000346 * 1013.25) * 6.1121 * exp (17.502 * 20 / (240.97 + 20)))
   \<and> buck_vapor_pressure Binary64 1013.25 20 =
     Inr (fmul (fmul (fadd (round_double 1.0007) (fmul (round_double 0.00000346) 1013.25))
                     (round_double 6.1121))
               (fexp (round_double (fmul (round_double 17.502) 20
                                    / fadd (round_double 240.97) 20))))"
proof -
  have a: "(0::real) < 1013.25" and b: "- 20 \<le> (20::real)" and c: "(20::real) \<le> 50"
    by simp_all
  from buck_vapor_pressure_formula [OF a b c] a b c show ?thesis by (intro conjI) simp_all
qed

text \<open>
  Claim C6. For every air pressure above 0 and every temperature from -20 to 50,
  \<open>buck_vapor_pressure\<close> returns a value above 0 and its output assertion
  (\<open>InternalError\<close>) does not fire, in exact arithmetic and in double-precision
  arithmetic. (Over doubles the exponent stays between -8 and 8, so the exponential does
  not underflow, and no factor of the product rounds to zero.)
\<close>

theorem buck_vapor_pressure_positive:
  "0 < air_pressure \<Longrightarrow> - 20 \<le> temperature \<Longrightarrow> temperature \<le> 50 \<Longrightarrow>
   (\<exists>v. buck_vapor_pressure ar air_pressure temperature = Inr v \<and> 0 < v)
   \<and> buck_vapor_pressure ar air_pressure temperature \<noteq> Inl InternalError"
proof -
  assume a: "0 < air_pressure" "- 20 \<le> temperature" "temperature \<le> 50"
  obtain v where "buck_vapor_pressure ar air_pressure temperature = Inr v" "0 < v"
    using buck_vapor_pressure_returns [OF a] by blast
  then show ?thesis by simp
qed

theorem buck_vapor_pressure_positive_witness:
  "(0::real) < 260 \<and> - 20 \<le> (- 20::real) \<and> (- 20::real) \<le> 50 \<and>
   (\<exists>v. buck_vapor_pressure Exact 260 (- 20) = Inr v \<and> 0 < v)
   \<and> buck_vapor_pressure Exact 260 (- 20) \<noteq> Inl InternalError
   \<and> (\<exists>v. buck_vapor_pressure Binary64 260 (- 20) = Inr v \<and> 0 < v)
   \<and> buck_vapor_pressure Binary64 260 (- 20) \<noteq> Inl InternalError"
proof -
  have a: "(0::real) < 260" and b: "- 20 \<le> (- 20::real)" and c: "(- 20::real) \<le> 50"
    by simp_all
  from buck_vapor_pressure_positive [OF a b c, of Exact]
    buck_vapor_pressure_positive [OF a b c, of Binary64] a b c
  show ?thesis by (intro conjI) simp_all
qed

text \<open>
  Claim C5, as amended. For a fixed air pressure above 0 the saturation vapor pressure
  is strictly increasing in the temperature on the range from -20 to 50 in exact
  arithmetic; in double-precision arithmetic \<open>t1 < t2\<close> gives a strictly smaller result
  when the two temperatures are at least \<open>1e-10\<close> apart. (For temperatures that are
  closer the rounded results need not be strictly ordered, as the example after the
  theorem shows.)
\<close>

theorem buck_vapor_pressure_strict_mono:
  "0 < air_pressure \<Longrightarrow> - 20 \<le> t1 \<Longrightarrow> t1 < t2 \<Longrightarrow> t2 \<le> 50 \<Longrightarrow>
   (\<exists>v1 v2. buck_vapor_pressure Exact air_pressure t1 = Inr v1
         \<and> buck_vapor_pressure Exact air_pressure t2 = Inr v2 \<and> v1 < v2)
   \<and> (t1 + 1 / 10 ^ 10 \<le> t2 \<longrightarrow>
        (\<exists>v1 v2. buck_vapor_pressure Binary64 air_pressure t1 = Inr v1
              \<and> buck_vapor_pressure Binary64 air_pressure t2 = Inr v2 \<and> v1 < v2))"
proof -
  assume a: "0 < air_pressure" "- 20 \<le> t1" "t1 < t2" "t2 \<le> 50"
  have b1: "t1 \<le> 50" and b2: "- 20 \<le> t2" using a by simp_all
  have exact: "\<exists>v1 v2. buck_vapor_pressure Exact air_pressure t1 = Inr v1
         \<and> buck_vapor_pressure Exact air_pressure t2 = Inr v2 \<and> v1 < v2"
    unfolding buck_vapor_pressure_valid [OF a(1,2) b1] buck_vapor_pressure_valid [OF a(1) b2 a(4)]
    using buck_value_strict_mono [OF a(1,2,3)] by blast
  have double: "\<exists>v1 v2. buck_vapor_pressure Binary64 air_pressure t1 = Inr v1
         \<and> buck_vapor_pressure Binary64 air_pressure t2 = Inr v2 \<and> v1 < v2"
    if far: "t1 + 1 / 10 ^ 10 \<le> t2"
  proof -
    have "(2::real) powi (- 34) \<le> 1 / 10 ^ 10" by (simp add: power_int_minus field_simps)
    then have "t1 + 2 powi (- 34) \<le> t2" using far by linarith
    then obtain v1 v2 where v: "buck_vapor_pressure Binary64 air_pressure t1 = Inr v1"
        "buck_vapor_pressure Binary64 air_pressure t2 = Inr v2"
      and low: "2 powi (- 11) \<le> v1" and gap: "(1 + 2 powi (- 42)) * v1 \<le> v2"
      using buck_vapor_pressure_b64_gap [OF a(1,2) _ a(4)] by blast
    have "(0::real) < 2 powi (- 11)" by simp
    then have "0 < v1" using low by linarith
    moreover have "(0::real) < 2 powi (- 42)" by simp
    ultimately have "0 < 2 powi (- 42) * v1" by (rule mult_pos_pos [rotated])
    then have "v1 < v2" using gap by (simp add: algebra_simps)
    then show ?thesis using v by blast
  qed
  from exact double show ?thesis by blast
qed

theorem buck_vapor_pressure_strict_mono_witness:
  "(0::real) < 1013.25 \<and> - 20 \<le> (0::real) \<and> (0::real) < 20 \<and> (20::real) \<le> 50
   \<and> (0::real) + 1 / 10 ^ 10 \<le> 20
   \<and> (\<exists>v1 v2. buck_vapor_pressure Exact 1013.25 0 = Inr v1
         \<and> buck_vapor_pressure Exact 1013.25 20 = Inr v2 \<and> v1 < v2)
   \<and> (\<exists>v1 v2. buck_vapor_pressure Binary64 1013.25 0 = Inr v1
         \<and> buck_vapor_pressure Binary64 1013.25 20 = Inr v2 \<and> v1 < v2)"
proof -
  have a: "(0::real) < 1013.25" and b: "- 20 \<le> (0::real)" and c: "(0::real) < 20"
    and d: "(20::real) \<le> 50" and e: "(0::real) + 1 / 10 ^ 10 \<le> 20"
    by simp_all
  from buck_vapor_pressure_strict_mono [OF a b c d] a b c d e show ?thesis by blast
qed

text \<open>
  Claim C5 as stated fails over doubles. At 1013.25 hPa the temperatures \<open>0\<close> and
  \<open>2 powi (- 1074)\<close> (the smallest positive double, \<^verbatim>\<open>5e-324\<close>) give the same vapor
  pressure: \<^verbatim>\<open>17.502 * 5e-324\<close> is \<open>18\<close> times that double, and dividing it by
  \<^verbatim>\<open>240.97\<close> rounds to \<open>0\<close>, so both calls compute \<^verbatim>\<open>math.exp(0.0)\<close>.
\<close>

theorem buck_vapor_pressure_b64_not_strict:
  "(0::real) < 1 / 2 ^ 1074
   \<and> buck_vapor_pressure Binary64 1013.25 0 = Inr (863819477185789 / 140737488355328)
   \<and> buck_vapor_pressure Binary64 1013.25 (1 / 2 ^ 1074)
       = Inr (863819477185789 / 140737488355328)"
  using buck_b64_at_0 buck_b64_at_tiny by simp

subsection \<open>The corrections\<close>

text \<open>
  Claim C3, as amended. \<open>ambient_temperature t\<close> is \<open>0.8542 * t - 9.675\<close> for every
  \<open>t\<close>, in double-precision arithmetic with the two literals, the product and the sum
  rounded; at \<open>30\<close> it is \<open>15.951\<close> in exact arithmetic and the double
  \<^verbatim>\<open>15.950999999999997\<close> in double-precision arithmetic.
\<close>

theorem ambient_temperature_affine:
  "ambient_temperature Exact t = 0.8542 * t - 9.675
   \<and> ambient_temperature Binary64 t
       = round_double (fmul (round_double 0.8542) t - round_double 9.675)
   \<and> ambient_temperature Exact 30 = 15.951
   \<and> ambient_temperature Binary64 30 = 4489807353511673 / 281474976710656
   \<and> \<bar>ambient_temperature Binary64 30 - 15.951\<bar> \<le> 1 / 10 ^ 14"
proof -
  have "\<bar>(4489807353511673 / 281474976710656 :: real) - 15.951\<bar> \<le> 1 / 10 ^ 14" by simp
  then show ?thesis
    unfolding ambient_temperature_b64_30 by (simp add: ambient_temperature_def)
qed

text \<open>
  Claim C3 as stated gives \<open>16.951\<close> for \<open>ambient_temperature 30\<close>; the function
  returns \<open>15.951\<close>, which is off by \<open>1\<close>, in exact arithmetic exactly and in
  double-precision arithmetic up to rounding.
\<close>

theorem ambient_temperature_30_off_by_one:
  "\<bar>ambient_temperature Exact 30 - 16.951\<bar> = 1
   \<and> 0.99 < \<bar>ambient_temperature Binary64 30 - 16.951\<bar>"
  unfolding ambient_temperature_b64_30 by (simp add: ambient_temperature_def)

text \<open>
  Claim C9. \<open>ambient_pressure\<close> is the identity, and after an \<open>update\<close> that succeeds
  the stored ambient pressure is the pressure the sensor returned.
\<close>

theorem ambient_pressure_identity:
  "ambient_pressure x = x
   \<and> (update ar sense utcnow s = (Done, s') \<longrightarrow>
        self_ambient_pressure s' = Some (get_pressure sense)
        \<and> get_ambient_pressure s' = Inr (get_pressure sense))"
proof (intro conjI impI)
  show "ambient_pressure x = x" by (simp add: ambient_pressure_def)
next
  assume "update ar sense utcnow s = (Done, s')"
  then show p: "self_ambient_pressure s' = Some (get_pressure sense)"
    by (rule update_Done_record(3))
  then show "get_ambient_pressure s' = Inr (get_pressure sense)"
    by (simp add: get_ambient_pressure_def getattr_def)
qed

theorem ambient_pressure_identity_witness:
  "update Binary64 (reading 45 32 1005) ''2016-05-01 12:00:00'' init
     = (Done, snd (update Binary64 (reading 45 32 1005) ''2016-05-01 12:00:00'' init))
   \<and> ambient_pressure 1005 = (1005::real)
   \<and> self_ambient_pressure
        (snd (update Binary64 (reading 45 32 1005) ''2016-05-01 12:00:00'' init)) = Some 1005
   \<and> get_ambient_pressure
        (snd (update Binary64 (reading 45 32 1005) ''2016-05-01 12:00:00'' init)) = Inr 1005"
proof -
  have r: "in_sensor_range (reading 45 32 1005)"
    and t: "get_temperature_from_humidity (reading 45 32 1005) \<le> 50"
    by (simp_all add: in_sensor_range_def)
  have "fst (update Binary64 (reading 45 32 1005) ''2016-05-01 12:00:00'' init) = Done"
    using r t by (rule update_succeeds)
  then have d: "update Binary64 (reading 45 32 1005) ''2016-05-01 12:00:00'' init
      = (Done, snd (update Binary64 (reading 45 32 1005) ''2016-05-01 12:00:00'' init))"
    by (metis prod.collapse)
  from ambient_pressure_identity [of 1005 Binary64 "reading 45 32 1005"
      "''2016-05-01 12:00:00''" init
      "snd (update Binary64 (reading 45 32 1005) ''2016-05-01 12:00:00'' init)"] d
  show ?thesis by simp
qed

text \<open>
  Claim C7, as amended. When the ambient temperature and pressure handed to
  \<open>ambient_humidity\<close> equal the measured ones (pressure above 0, temperature from -20
  to 50), the result is the measured humidity in exact arithmetic, and in
  double-precision arithmetic it differs from the measured humidity \<open>h\<close> by at most
  \<open>2 powi (- 51) * \<bar>h\<bar>\<close>: the code rounds the product \<open>h * inside\<close> and then
  the quotient. The bounds on the pressure and on \<open>h\<close> in the second part keep the
  computation away from overflow and underflow.
\<close>

theorem ambient_humidity_round_trip:
  "0 < pm \<Longrightarrow> - 20 \<le> tm \<Longrightarrow> tm \<le> 50 \<Longrightarrow> ta = tm \<Longrightarrow> pa = pm \<Longrightarrow>
   ambient_humidity Exact h tm pm ta pa = Inr h
   \<and> (pm \<le> 2 powi 20 \<and> (h = 0 \<or> 2 powi (- 1000) \<le> \<bar>h\<bar> \<and> \<bar>h\<bar> \<le> 2 powi 1000) \<longrightarrow>
        (\<exists>v. ambient_humidity Binary64 h tm pm ta pa = Inr v
            \<and> \<bar>v - h\<bar> \<le> 2 powi (- 51) * \<bar>h\<bar>))"
proof -
  assume a: "0 < pm" "- 20 \<le> tm" "tm \<le> 50"
    and e: "ta = tm" "pa = pm"
  have "(1.0007 + 0.00000346 * pm) * 6.1121
          * exp (17.502 * tm / (240.97 + tm)) \<noteq> 0"
    using buck_value_positive [OF a(1)] by (simp only: less_imp_neq [THEN not_sym] not_False_eq_True)
  then have exact: "ambient_humidity Exact h tm pm ta pa = Inr h"
    unfolding e ambient_humidity_valid [OF a a]
    by (simp only: nonzero_mult_div_cancel_right simp_thms)
  have double: "\<exists>v. ambient_humidity Binary64 h tm pm ta pa = Inr v
      \<and> \<bar>v - h\<bar> \<le> 2 powi (- 51) * \<bar>h\<bar>"
    if "h = 0 \<or> 2 powi (- 1000) \<le> \<bar>h\<bar>"
  proof (cases "h = 0")
    case True
    then show ?thesis unfolding e using ambient_humidity_b64_zero [OF a] by simp
  next
    case False
    with that have "2 powi (- 1000) \<le> \<bar>h\<bar>" by simp
    then show ?thesis unfolding e using a ambient_humidity_b64_round_trip_error by blast
  qed
  from exact double show ?thesis by blast
qed

theorem ambient_humidity_round_trip_witness:
  "(0::real) < 1013.25 \<and> - 20 \<le> (0::real) \<and> (0::real) \<le> 50
   \<and> (1013.25::real) \<le> 2 powi 20 \<and> (2::real) powi (- 1000) \<le> \<bar>30\<bar> \<and> \<bar>30::real\<bar> \<le> 2 powi 1000
   \<and> ambient_humidity Exact 30 0 1013.25 0 1013.25 = Inr 30
   \<and> (\<exists>v. ambient_humidity Binary64 30 0 1013.25 0 1013.25 = Inr v
         \<and> \<bar>v - 30\<bar> \<le> 2 powi (- 51) * \<bar>30\<bar>)"
proof -
  have a: "(0::real) < 1013.25" and b: "- 20 \<le> (0::real)" and c: "(0::real) \<le> 50"
    by simp_all
  have d: "(1013.25::real) \<le> 2 powi 20" by simp
  have f: "\<bar>30::real\<bar> \<le> 2 powi 1000" by simp
  have "(2::real) powi (- 1000) \<le> 1" by (simp add: power_int_minus field_simps)
  then have g: "(2::real) powi (- 1000) \<le> \<bar>30\<bar>" by simp
  from ambient_humidity_round_trip [OF a b c refl refl, of 30] a b c d f g
  show ?thesis by blast
qed

text \<open>
  Claim C7 as stated fails over doubles: with measured humidity \<open>30\<close>, both temperatures
  \<open>0\<close> and both pressures \<open>1013.25\<close>, the code returns \<open>30 + 2 powi (- 48)\<close>
  (\<^verbatim>\<open>30.000000000000004\<close>).
\<close>

theorem ambient_humidity_b64_round_trip_fails:
  "ambient_humidity Binary64 30 0 1013.25 0 1013.25 = Inr (30 + 1 / 2 ^ 48)
   \<and> ambient_humidity Binary64 30 0 1013.25 0 1013.25 \<noteq> Inr 30"
  unfolding ambient_humidity_b64_30 by simp

text \<open>
  Claim C8, as amended. For a measured humidity above 0, a pressure above 0 used on
  both sides and temperatures from -20 to 50 with the measured temperature above the
  ambient one, the inside saturation vapor pressure is above the ambient one and
  \<open>ambient_humidity\<close> returns more than the measured humidity: in exact arithmetic
  always, and in double-precision arithmetic when the two temperatures are at least
  \<open>1e-10\<close> apart (the bounds on the pressure and on the humidity in that part keep
  the computation away from overflow and underflow). For temperatures that are closer
  the rounded values need not be strictly ordered, as the example after the theorem
  shows.
\<close>

theorem ambient_humidity_increases:
  "0 < hm \<Longrightarrow> 0 < pm \<Longrightarrow> pa = pm \<Longrightarrow> - 20 \<le> ta \<Longrightarrow> ta < tm \<Longrightarrow> tm \<le> 50 \<Longrightarrow>
   (\<exists>inside ambient v.
        buck_vapor_pressure Exact pm tm = Inr inside
      \<and> buck_vapor_pressure Exact pa ta = Inr ambient
      \<and> ambient < inside
      \<and> ambient_humidity Exact hm tm pm ta pa = Inr v \<and> hm < v)
   \<and> (ta + 1 / 10 ^ 10 \<le> tm \<and> pm \<le> 2 powi 20 \<and> 2 powi (- 1000) \<le> hm \<and> hm \<le> 2 powi 1000 \<longrightarrow>
       (\<exists>inside ambient v.
          buck_vapor_pressure Binary64 pm tm = Inr inside
        \<and> buck_vapor_pressure Binary64 pa ta = Inr ambient
        \<and> ambient < inside
        \<and> ambient_humidity Binary64 hm tm pm ta pa = Inr v \<and> hm < v))"
proof -
  assume h: "0 < hm" and p: "0 < pm"
    and e: "pa = pm"
    and t: "- 20 \<le> ta" "ta < tm" "tm \<le> 50"
  have t': "ta \<le> 50" "- 20 \<le> tm" using t by simp_all
  define inside where "inside = (1.0007 + 0.00000346 * pm) * 6.1121
          * exp (17.502 * tm / (240.97 + tm))"
  define ambient where "ambient = (1.0007 + 0.00000346 * pm) * 6.1121
          * exp (17.502 * ta / (240.97 + ta))"
  have pos: "0 < ambient" unfolding ambient_def using p by (rule buck_value_positive)
  have less: "ambient < inside"
    unfolding ambient_def inside_def using p t(1,2) by (rule buck_value_strict_mono)
  have "hm * ambient < hm * inside"
    using less h by (rule mult_strict_left_mono)
  then have gt: "hm < hm * inside / ambient"
    using pos by (simp add: pos_less_divide_eq)
  have "buck_vapor_pressure Exact pm tm = Inr inside"
    unfolding inside_def using p t'(2) t(3) by (rule buck_vapor_pressure_valid)
  moreover have "buck_vapor_pressure Exact pa ta = Inr ambient"
    unfolding ambient_def e using p t(1) t'(1) by (rule buck_vapor_pressure_valid)
  moreover have "ambient_humidity Exact hm tm pm ta pa
      = Inr (hm * inside / ambient)"
    unfolding inside_def ambient_def e
    using p t'(2) t(3) p t(1) t'(1) by (rule ambient_humidity_valid)
  ultimately have exact: "\<exists>inside ambient v.
        buck_vapor_pressure Exact pm tm = Inr inside
      \<and> buck_vapor_pressure Exact pa ta = Inr ambient
      \<and> ambient < inside
      \<and> ambient_humidity Exact hm tm pm ta pa = Inr v \<and> hm < v"
    using less gt by blast
  have double: "\<exists>inside ambient v.
          buck_vapor_pressure Binary64 pm tm = Inr inside
        \<and> buck_vapor_pressure Binary64 pa ta = Inr ambient
        \<and> ambient < inside
        \<and> ambient_humidity Binary64 hm tm pm ta pa = Inr v \<and> hm < v"
    if far: "ta + 1 / 10 ^ 10 \<le> tm" and low: "2 powi (- 1000) \<le> hm"
  proof -
    have "(2::real) powi (- 34) \<le> 1 / 10 ^ 10" by (simp add: power_int_minus field_simps)
    then have "ta + 2 powi (- 34) \<le> tm" using far by linarith
    then show ?thesis
      unfolding e using p t(1) t(3) low by (intro ambient_humidity_b64_increases)
  qed
  from exact double show ?thesis by blast
qed

theorem ambient_humidity_increases_witness:
  "(0::real) < 45 \<and> (0::real) < 1005 \<and> - 20 \<le> (17.5::real) \<and> (17.5::real) < 32
   \<and> (32::real) \<le> 50 \<and> (17.5::real) + 1 / 10 ^ 10 \<le> 32 \<and> (1005::real) \<le> 2 powi 20
   \<and> (2::real) powi (- 1000) \<le> 45 \<and> (45::real) \<le> 2 powi 1000
   \<and> (\<exists>inside ambient v.
        buck_vapor_pressure Exact 1005 32 = Inr inside
      \<and> buck_vapor_pressure Exact 1005 17.5 = Inr ambient
      \<and> ambient < inside
      \<and> ambient_humidity Exact 45 32 1005 17.5 1005 = Inr v
      \<and> 45 < v)
   \<and> (\<exists>inside ambient v.
        buck_vapor_pressure Binary64 1005 32 = Inr inside
      \<and> buck_vapor_pressure Binary64 1005 17.5 = Inr ambient
      \<and> ambient < inside
      \<and> ambient_humidity Binary64 45 32 1005 17.5 1005 = Inr v
      \<and> 45 < v)"
proof -
  have a: "(0::real) < 45" and b: "(0::real) < 1005" and c: "- 20 \<le> (17.5::real)"
    and d: "(17.5::real) < 32" and e: "(32::real) \<le> 50"
    and f: "(17.5::real) + 1 / 10 ^ 10 \<le> 32" and g: "(1005::real) \<le> 2 powi 20"
    and i: "(45::real) \<le> 2 powi 1000"
    by simp_all
  have "(2::real) powi (- 1000) \<le> 1" by (simp add: power_int_minus field_simps)
  then have j: "(2::real) powi (- 1000) \<le> 45" by simp
  from ambient_humidity_increases [OF a b refl c d e] a b c d e f g i j
  show ?thesis by blast
qed

text \<open>
  Claim C8 as stated fails over doubles: at 1013.25 hPa on both sides, with measured
  temperature \<open>2 powi (- 1074)\<close> above the ambient temperature \<open>0\<close> and measured
  humidity \<open>64\<close>, the two saturation vapor pressures are equal and the code returns
  \<open>64\<close>.
\<close>

theorem ambient_humidity_b64_not_increased:
  "(0::real) < 64 \<and> (0::real) < 1 / 2 ^ 1074
   \<and> buck_vapor_pressure Binary64 1013.25 (1 / 2 ^ 1074)
       = buck_vapor_pressure Binary64 1013.25 0
   \<and> ambient_humidity Binary64 64 (1 / 2 ^ 1074) 1013.25 0 1013.25 = Inr 64"
  unfolding ambient_humidity_b64_64 buck_b64_at_0 buck_b64_at_tiny by simp

subsection \<open>The class Sensor\<close>

text \<open>
  Claim C2. \<open>update\<close> raises \<open>SensorOutOfRange\<close> exactly when a reading is outside its
  bounds (humidity from 0 to 100, temperature from 0 to 65, pressure from 260 to 1260),
  and then the corrected record of the object is the one it had before the call; in
  either arithmetic. The witness has the three readings of the claim: humidity 150,
  temperature 70, pressure 200.
\<close>

theorem update_SensorOutOfRange:
  "((\<exists>q b. fst (update ar sense utcnow s) = Raised (SensorOutOfRange q b))
      \<longleftrightarrow> \<not> in_sensor_range sense)
   \<and> (\<not> in_sensor_range sense \<longrightarrow>
        corrected_record (snd (update ar sense utcnow s)) = corrected_record s)"
proof (intro conjI impI iffI)
  assume "\<exists>q b. fst (update ar sense utcnow s) = Raised (SensorOutOfRange q b)"
  then show "\<not> in_sensor_range sense"
    using update_not_SensorOutOfRange [of sense ar utcnow s] by blast
next
  assume "\<not> in_sensor_range sense"
  then show "\<exists>q b. fst (update ar sense utcnow s) = Raised (SensorOutOfRange q b)"
    by (rule update_out_of_range(1))
next
  assume "\<not> in_sensor_range sense"
  then show "corrected_record (snd (update ar sense utcnow s)) = corrected_record s"
    by (rule update_out_of_range(2))
qed

theorem update_SensorOutOfRange_witness:
  "(\<exists>q b. fst (update Binary64 (reading 150 25 1000) ''2016-05-01 12:00:00'' init)
           = Raised (SensorOutOfRange q b))
   \<and> corrected_record (snd (update Binary64 (reading 150 25 1000) ''2016-05-01 12:00:00'' init))
       = corrected_record init
   \<and> (\<exists>q b. fst (update Binary64 (reading 50 70 1000) ''2016-05-01 12:00:00'' init)
           = Raised (SensorOutOfRange q b))
   \<and> corrected_record (snd (update Binary64 (reading 50 70 1000) ''2016-05-01 12:00:00'' init))
       = corrected_record init
   \<and> (\<exists>q b. fst (update Binary64 (reading 50 25 200) ''2016-05-01 12:00:00'' init)
           = Raised (SensorOutOfRange q b))
   \<and> corrected_record (snd (update Binary64 (reading 50 25 200) ''2016-05-01 12:00:00'' init))
       = corrected_record init"
proof -
  have "\<not> in_sensor_range (reading 150 25 1000)"
    and "\<not> in_sensor_range (reading 50 70 1000)"
    and "\<not> in_sensor_range (reading 50 25 200)"
    by (simp_all add: in_sensor_range_def)
  with update_SensorOutOfRange [of Binary64 "reading 150 25 1000" "''2016-05-01 12:00:00''" init]
    update_SensorOutOfRange [of Binary64 "reading 50 70 1000" "''2016-05-01 12:00:00''" init]
    update_SensorOutOfRange [of Binary64 "reading 50 25 200" "''2016-05-01 12:00:00''" init]
  show ?thesis by blast
qed

text \<open>
  Claim C10. A reading inside the sensor ranges whose temperature is above 50 passes
  the six assertions of \<open>update\<close>, and the call of \<open>buck_vapor_pressure\<close> for the inside
  of the enclosure then raises \<open>InvalidInput Temperature Above\<close>, which ends \<open>update\<close>.
  For a measured temperature from 0 to 50 the ambient temperature (in exact arithmetic
  \<open>0.8542 * t - 9.675\<close>) lies between -20 and 50; with the other readings in range
  both calls of \<open>buck_vapor_pressure\<close> return a value and \<open>update\<close> succeeds. All of it
  holds in either arithmetic.
\<close>

theorem hot_reading_aborts_update:
  "(in_sensor_range sense \<and> 50 < get_temperature_from_humidity sense \<longrightarrow>
       buck_vapor_pressure ar (get_pressure sense) (get_temperature_from_humidity sense)
         = Inl (InvalidInput Temperature Above)
     \<and> fst (update ar sense utcnow s) = Raised (InvalidInput Temperature Above))
   \<and> (0 \<le> t \<and> t \<le> 50 \<longrightarrow>
       ambient_temperature Exact t = 0.8542 * t - 9.675
     \<and> - 20 \<le> ambient_temperature ar t \<and> ambient_temperature ar t \<le> 50)
   \<and> (in_sensor_range sense \<and> get_temperature_from_humidity sense \<le> 50 \<longrightarrow>
       (\<exists>v. buck_vapor_pressure ar (get_pressure sense) (get_temperature_from_humidity sense)
             = Inr v)
     \<and> (\<exists>v. buck_vapor_pressure ar (ambient_pressure (get_pressure sense))
              (ambient_temperature ar (get_temperature_from_humidity sense)) = Inr v)
     \<and> fst (update ar sense utcnow s) = Done)"
proof (intro conjI impI; (elim conjE)?)
  assume a: "in_sensor_range sense" "50 < get_temperature_from_humidity sense"
  show "buck_vapor_pressure ar (get_pressure sense) (get_temperature_from_humidity sense)
         = Inl (InvalidInput Temperature Above)"
    using a by (rule update_hot(1))
  show "fst (update ar sense utcnow s) = Raised (InvalidInput Temperature Above)"
    unfolding update_hot(2) [OF a] by (rule fst_conv)
next
  show "ambient_temperature Exact t = 0.8542 * t - 9.675"
    by (simp add: ambient_temperature_def)
next
  assume "0 \<le> t" "t \<le> 50"
  then show "- 20 \<le> ambient_temperature ar t" by (rule ambient_temperature_in_range(1))
next
  assume "0 \<le> t" "t \<le> 50"
  then show "ambient_temperature ar t \<le> 50" by (rule ambient_temperature_in_range(2))
next
  assume a: "in_sensor_range sense" "get_temperature_from_humidity sense \<le> 50"
  have t: "0 \<le> get_temperature_from_humidity sense" and p: "0 < get_pressure sense"
    using a(1) by (simp_all add: in_sensor_range_def)
  have t': "- 20 \<le> get_temperature_from_humidity sense" using t by simp
  show "\<exists>v. buck_vapor_pressure ar (get_pressure sense) (get_temperature_from_humidity sense)
             = Inr v"
    using buck_vapor_pressure_returns [OF p t' a(2)] by blast
  have p': "0 < ambient_pressure (get_pressure sense)" using p by (simp add: ambient_pressure_def)
  show "\<exists>v. buck_vapor_pressure ar (ambient_pressure (get_pressure sense))
              (ambient_temperature ar (get_temperature_from_humidity sense)) = Inr v"
    using buck_vapor_pressure_returns [OF p' ambient_temperature_in_range [OF t a(2)]] by blast
  show "fst (update ar sense utcnow s) = Done" using a by (rule update_succeeds)
qed

theorem hot_reading_aborts_update_witness:
  "in_sensor_range (reading 50 60 1000) \<and> (50::real) < 60
   \<and> buck_vapor_pressure Binary64 1000 60 = Inl (InvalidInput Temperature Above)
   \<and> fst (update Binary64 (reading 50 60 1000) ''2016-05-01 12:00:00'' init)
       = Raised (InvalidInput Temperature Above)
   \<and> (0::real) \<le> 50 \<and> ambient_temperature Exact 50 = 33.035
   \<and> - 20 \<le> ambient_temperature Binary64 50 \<and> ambient_temperature Binary64 50 \<le> 50
   \<and> in_sensor_range (reading 45 32 1005) \<and> (32::real) \<le> 50
   \<and> (\<exists>v. buck_vapor_pressure Binary64 1005 32 = Inr v)
   \<and> (\<exists>v. buck_vapor_pressure Binary64 (ambient_pressure 1005) (ambient_temperature Binary64 32)
            = Inr v)
   \<and> fst (update Binary64 (reading 45 32 1005) ''2016-05-01 12:00:00'' init) = Done"
proof -
  have r: "in_sensor_range (reading 50 60 1000)" "in_sensor_range (reading 45 32 1005)"
    by (simp_all add: in_sensor_range_def)
  from hot_reading_aborts_update [of "reading 50 60 1000" Binary64 "''2016-05-01 12:00:00''" init 50]
    hot_reading_aborts_update [of "reading 45 32 1005" Binary64 "''2016-05-01 12:00:00''" init 50] r
  show ?thesis by simp
qed

text \<open>
  Claim C4, as amended. On a fresh object each of the four accessors raises
  \<open>NotReady\<close>. As long as no \<open>update\<close> has succeeded, \<open>ambient_humidity\<close> raises
  \<open>NotReady\<close>, and so does a read of the whole record. After an \<open>update\<close> that succeeds
  the four accessors return the values of that cycle.
\<close>

theorem corrected_record_access:
  "get_timestamp init = Inl (NotReady Timestamp)
   \<and> get_ambient_humidity init = Inl (NotReady Ambient_humidity)
   \<and> get_ambient_temperature init = Inl (NotReady Ambient_temperature)
   \<and> get_ambient_pressure init = Inl (NotReady Ambient_pressure)
   \<and> (never_updated ar s \<longrightarrow> get_ambient_humidity s = Inl (NotReady Ambient_humidity))
   \<and> (update ar sense utcnow s0 = (Done, s') \<longrightarrow>
        get_timestamp s' = Inr utcnow
      \<and> (\<exists>v. get_ambient_humidity s' = Inr v)
      \<and> get_ambient_temperature s'
          = Inr (ambient_temperature ar (get_temperature_from_humidity sense))
      \<and> get_ambient_pressure s' = Inr (get_pressure sense))"
proof (intro conjI impI)
  show "get_timestamp init = Inl (NotReady Timestamp)"
    and "get_ambient_humidity init = Inl (NotReady Ambient_humidity)"
    and "get_ambient_temperature init = Inl (NotReady Ambient_temperature)"
    and "get_ambient_pressure init = Inl (NotReady Ambient_pressure)"
    by (simp_all add: get_timestamp_def get_ambient_humidity_def get_ambient_temperature_def
        get_ambient_pressure_def getattr_def init_def)
next
  assume "never_updated ar s"
  then show "get_ambient_humidity s = Inl (NotReady Ambient_humidity)"
    by (simp add: never_updated_humidity get_ambient_humidity_def getattr_def)
next
  assume d: "update ar sense utcnow s0 = (Done, s')"
  show "get_timestamp s' = Inr utcnow"
    using update_Done_record(1) [OF d] by (simp add: get_timestamp_def getattr_def)
  show "\<exists>v. get_ambient_humidity s' = Inr v"
    using update_Done_record(4) [OF d] by (auto simp: get_ambient_humidity_def getattr_def)
  show "get_ambient_temperature s'
          = Inr (ambient_temperature ar (get_temperature_from_humidity sense))"
    using update_Done_record(2) [OF d] by (simp add: get_ambient_temperature_def getattr_def)
  show "get_ambient_pressure s' = Inr (get_pressure sense)"
    using update_Done_record(3) [OF d] by (simp add: get_ambient_pressure_def getattr_def)
qed

theorem corrected_record_access_witness:
  "never_updated Binary64 (snd (update Binary64 (reading 50 60 1000) ''2016-05-01 12:00:00'' init))
   \<and> get_ambient_humidity (snd (update Binary64 (reading 50 60 1000) ''2016-05-01 12:00:00'' init))
       = Inl (NotReady Ambient_humidity)
   \<and> update Binary64 (reading 45 32 1005) ''2016-05-01 12:00:30'' init
       = (Done, snd (update Binary64 (reading 45 32 1005) ''2016-05-01 12:00:30'' init))
   \<and> get_timestamp (snd (update Binary64 (reading 45 32 1005) ''2016-05-01 12:00:30'' init))
       = Inr ''2016-05-01 12:00:30''
   \<and> (\<exists>v. get_ambient_humidity
             (snd (update Binary64 (reading 45 32 1005) ''2016-05-01 12:00:30'' init)) = Inr v)
   \<and> get_ambient_temperature
        (snd (update Binary64 (reading 45 32 1005) ''2016-05-01 12:00:30'' init))
       = Inr (ambient_temperature Binary64 32)
   \<and> get_ambient_pressure
        (snd (update Binary64 (reading 45 32 1005) ''2016-05-01 12:00:30'' init)) = Inr 1005"
proof -
  have hot: "in_sensor_range (reading 50 60 1000)"
    "50 < get_temperature_from_humidity (reading 50 60 1000)"
    by (simp_all add: in_sensor_range_def)
  have n: "never_updated Binary64
      (snd (update Binary64 (reading 50 60 1000) ''2016-05-01 12:00:00'' init))"
    using never_updated.failed [OF never_updated.fresh update_hot(2) [OF hot]]
    by (simp add: update_hot(2) [OF hot])
  have ok: "in_sensor_range (reading 45 32 1005)"
    "get_temperature_from_humidity (reading 45 32 1005) \<le> 50"
    by (simp_all add: in_sensor_range_def)
  have "fst (update Binary64 (reading 45 32 1005) ''2016-05-01 12:00:30'' init) = Done"
    using ok by (rule update_succeeds)
  then have d: "update Binary64 (reading 45 32 1005) ''2016-05-01 12:00:30'' init
      = (Done, snd (update Binary64 (reading 45 32 1005) ''2016-05-01 12:00:30'' init))"
    by (metis prod.collapse)
  from corrected_record_access [of Binary64
      "snd (update Binary64 (reading 50 60 1000) ''2016-05-01 12:00:00'' init)"
      "reading 45 32 1005" "''2016-05-01 12:00:30''" init
      "snd (update Binary64 (reading 45 32 1005) ''2016-05-01 12:00:30'' init)"] n d
  show ?thesis by simp
qed

text \<open>
  Claim C4 as stated fails: the reading (50, 60, 1000) passes the six assertions of
  \<open>update\<close>, which then assigns \<open>timestamp\<close>, \<open>ambient_temperature\<close> and
  \<open>ambient_pressure\<close> before \<open>buck_vapor_pressure\<close> raises. No \<open>update\<close> has succeeded
  on the object, and three of the four accessors return a value.
\<close>

theorem accessors_ready_after_failed_update:
  "fst (update Binary64 (reading 50 60 1000) ''2016-05-01 12:00:00'' init)
     = Raised (InvalidInput Temperature Above)
   \<and> never_updated Binary64
        (snd (update Binary64 (reading 50 60 1000) ''2016-05-01 12:00:00'' init))
   \<and> get_timestamp (snd (update Binary64 (reading 50 60 1000) ''2016-05-01 12:00:00'' init))
       = Inr ''2016-05-01 12:00:00''
   \<and> get_ambient_temperature
        (snd (update Binary64 (reading 50 60 1000) ''2016-05-01 12:00:00'' init))
       = Inr (ambient_temperature Binary64 60)
   \<and> get_ambient_pressure
        (snd (update Binary64 (reading 50 60 1000) ''2016-05-01 12:00:00'' init)) = Inr 1000"
proof -
  have hot: "in_sensor_range (reading 50 60 1000)"
    "50 < get_temperature_from_humidity (reading 50 60 1000)"
    by (simp_all add: in_sensor_range_def)
  have n: "never_updated Binary64
      (snd (update Binary64 (reading 50 60 1000) ''2016-05-01 12:00:00'' init))"
    using never_updated.failed [OF never_updated.fresh update_hot(2) [OF hot]]
    by (simp add: update_hot(2) [OF hot])
  show ?thesis
    using n unfolding update_hot(2) [OF hot]
    by (simp add: measured_def get_timestamp_def get_ambient_temperature_def
        get_ambient_pressure_def getattr_def ambient_pressure_def)
qed

end
